theory Spec2Isabelle
  imports Complex_Main
begin

section \<open>The contact state machine of app.js\<close>

text \<open>
  The development embeds \<^verbatim>\<open>src/js/app.js\<close>: the module-level session variables, the
  handlers \<^verbatim>\<open>cq\<close>, \<^verbatim>\<open>send\<close>, \<^verbatim>\<open>tu\<close>, \<^verbatim>\<open>stop\<close>, \<^verbatim>\<open>reset\<close>, \<^verbatim>\<open>changeMode\<close> and their helpers
  \<^verbatim>\<open>resetGameState\<close>, \<^verbatim>\<open>nextSingleStation\<close>, \<^verbatim>\<open>compareExtraInfo\<close>.

  JavaScript objects that are shared between variables (a station object is reachable from
  \<^verbatim>\<open>currentStations\<close>, from \<^verbatim>\<open>lastRespondingStations\<close> and from \<^verbatim>\<open>currentStation\<close>) live in an
  explicit object store indexed by references. A handler that raises a \<^verbatim>\<open>TypeError\<close> keeps
  the mutations it made before the raise, so a handler returns either \<open>Inr s'\<close> (it returned)
  or \<open>Inl (TypeError, s')\<close> (it raised, leaving \<open>s'\<close>).

  Times are JavaScript numbers; they are modelled as reals, without rounding. Calls to
  \<^verbatim>\<open>console.log\<close>, \<^verbatim>\<open>printStation\<close> and \<^verbatim>\<open>focus()\<close> are not modelled.
\<close>

subsection \<open>Data\<close>

text \<open>The Tone Scheduler bound to a station: the timing parameters it was built from.\<close>

record player =
  p_wpm :: int
  p_enableFarnsworth :: bool
  p_farnsworthSpeed :: int

datatype jsval = JNum int | JStr string | JUndefined

record station =
  callsign :: string
  wpm :: int
  enableFarnsworth :: bool
  farnsworthSpeed :: int
  attrs :: "string \<Rightarrow> jsval"
  player :: "player option"

type_synonym ref = nat

text \<open>The validated trainee configuration returned by \<^verbatim>\<open>getInputs()\<close>.\<close>

record inputs =
  enableCutNumbers :: bool
  cutNumbers :: "char \<Rightarrow> string option"

datatype match = Perfect | Partial | NoMatch

type_synonym msgfn = "station \<Rightarrow> station option \<Rightarrow> string option \<Rightarrow> string"

text \<open>One entry of \<^verbatim>\<open>modeLogicConfig\<close> (modes.js).\<close>

record modeConfig =
  showTuStep :: bool
  requiresInfoField :: bool
  requiresInfoField2 :: bool
  extraInfoFieldKey :: "string option"
  extraInfoFieldKey2 :: "string option"
  cqMessage :: msgfn
  yourExchange :: msgfn
  theirExchange :: msgfn
  yourSignoff :: msgfn
  theirSignoff :: "msgfn option"

datatype sender = You | Stn ref

text \<open>A scheduled transmission: who keys it, with which player, what text, from when.\<close>

record tone =
  t_sender :: sender
  t_player :: player
  t_text :: string
  t_start :: "real option"

text \<open>A row of the results table (\<^verbatim>\<open>addTableRow\<close>).\<close>

record contact =
  c_number :: int
  c_callsign :: string
  c_wpmString :: string
  c_attempts :: int
  c_elapsed :: real
  c_extraInfo :: string

text \<open>
  The session: the module variables of app.js, the object store of station objects, the
  state of the audio module (lock watermark, background static, scheduled tones) and the
  DOM elements the handlers read and write.
\<close>

record state =
  currentMode :: string
  inputs :: "inputs option"
  currentStations :: "ref list"
  currentStation :: "ref option"
  activeStationIndex :: "nat option"
  readyForTU :: bool
  currentStationAttempts :: int
  currentStationStartTime :: "real option"
  totalContacts :: int
  yourStation :: "station option"
  lastRespondingStations :: "ref list option"
  stations :: "ref \<Rightarrow> station"
  nextRef :: ref
  audioLock :: real
  staticPlaying :: bool
  scheduled :: "tone list"
  responseField :: string
  infoField :: string
  infoField2 :: string
  cqButtonDisabled :: bool
  resultsTable :: "contact list"
  activeStationsShown :: nat

text \<open>
  What the collaborators outside app.js answer while one handler runs: the mode table,
  the matcher, the tone scheduler's end timestamps, the station generator, the clock,
  \<^verbatim>\<open>Math.random()\<close>, the form, and the string built-ins of the language.
\<close>

record env =
  modeLogicConfig :: "string \<Rightarrow> modeConfig"
  compareStrings :: "string \<Rightarrow> string \<Rightarrow> match"
  playEnd :: "player \<Rightarrow> string \<Rightarrow> real option \<Rightarrow> real"
  getInputs :: "inputs option"
  getYourStation :: station
  getCallingStation :: station
  newStations :: "station list"
  now :: real
  random :: real
  enableContinuous :: bool
  selectedMode :: string
  showInfoField :: "string \<Rightarrow> bool"
  showInfoField2 :: "string \<Rightarrow> bool"
  toUpperCase :: "string \<Rightarrow> string"
  trim :: "string \<Rightarrow> string"
  parseInt :: "string \<Rightarrow> int option"
  toNumber :: "jsval \<Rightarrow> int option"
  toStr :: "jsval \<Rightarrow> string"

datatype error = TypeError

type_synonym result = "(error \<times> state) + state"

definition after :: "result \<Rightarrow> state" where
  "after r = (case r of Inl (e, s) \<Rightarrow> s | Inr s \<Rightarrow> s)"

definition farnsworthLowerBy :: int where
  "farnsworthLowerBy = 6"

definition orRaise :: "'a option \<Rightarrow> state \<Rightarrow> ('a \<Rightarrow> result) \<Rightarrow> result" where
  "orRaise x s k = (case x of None \<Rightarrow> Inl (TypeError, s) | Some v \<Rightarrow> k v)"

definition updStation :: "ref \<Rightarrow> (station \<Rightarrow> station) \<Rightarrow> state \<Rightarrow> state" where
  "updStation r f s = s\<lparr>stations := (stations s)(r := f (stations s r))\<rparr>"

subsection \<open>The audio module (audio.js)\<close>

text \<open>
  Modelled from the spec: \<^verbatim>\<open>getAudioLock\<close> of audio.js is missing. Section 4.2: it
  "returns true iff Clock.now < Lock".
\<close>

definition getAudioLock :: "env \<Rightarrow> state \<Rightarrow> bool" where
  "getAudioLock env s = (now env < audioLock s)"

text \<open>
  Modelled from the spec: \<^verbatim>\<open>updateAudioLock\<close> of audio.js is missing. Section 4.2: the Lock
  is "an explicit watermark independent of the Clock, updated by callers via
  updateAudioLock(timestamp)"; app.js frees the lock with \<^verbatim>\<open>updateAudioLock(0)\<close>.
\<close>

definition updateAudioLock :: "real \<Rightarrow> state \<Rightarrow> state" where
  "updateAudioLock t s = s\<lparr>audioLock := t\<rparr>"

text \<open>
  Modelled from the spec: \<^verbatim>\<open>isBackgroundStaticPlaying\<close>, \<^verbatim>\<open>createBackgroundStatic\<close> and
  \<^verbatim>\<open>stopAllAudio\<close> of audio.js are missing. Section 4.3: the Background Noise Layer is
  "independent of the Lock" and "exposes start-if-absent, is-playing query, intensity
  update, and stop-all (which also silences all in-flight tone events)".
\<close>

definition isBackgroundStaticPlaying :: "state \<Rightarrow> bool" where
  "isBackgroundStaticPlaying s = staticPlaying s"

definition createBackgroundStatic :: "state \<Rightarrow> state" where
  "createBackgroundStatic s = s\<lparr>staticPlaying := True\<rparr>"

definition stopAllAudio :: "state \<Rightarrow> state" where
  "stopAllAudio s = s\<lparr>staticPlaying := False, scheduled := []\<rparr>"

text \<open>
  Modelled from the spec: \<^verbatim>\<open>createMorsePlayer\<close> of audio.js is missing. Section 2: a
  "per-station object that renders a text string into a sequence of timed tone/silence
  events ... honoring speed, spacing"; section 3: the player is "replaced if timing
  parameters change". The player holds the timing parameters of the station it is built from.
\<close>

definition createMorsePlayer :: "station \<Rightarrow> player" where
  "createMorsePlayer stn =
     \<lparr>p_wpm = wpm stn, p_enableFarnsworth = enableFarnsworth stn,
      p_farnsworthSpeed = farnsworthSpeed stn\<rparr>"

text \<open>
  Modelled from the spec: \<^verbatim>\<open>playSentence\<close> of a player is missing. Section 4.1: it schedules
  the tone events of the text and "returns the timestamp at which playback of the full
  string completes". The returned timestamp is the collaborator's (\<open>playEnd\<close>); the
  scheduled transmission is recorded.
\<close>

definition playSentence ::
  "env \<Rightarrow> sender \<Rightarrow> player \<Rightarrow> string \<Rightarrow> real option \<Rightarrow> state \<Rightarrow> real \<times> state" where
  "playSentence env who p txt start s =
     (playEnd env p txt start,
      s\<lparr>scheduled := scheduled s @
           [\<lparr>t_sender = who, t_player = p, t_text = txt, t_start = start\<rparr>]\<rparr>)"

text \<open>\<^verbatim>\<open>yourStation.player.playSentence(text, start)\<close>; \<open>None\<close> when the dereference raises.\<close>

definition yourPlay :: "env \<Rightarrow> string \<Rightarrow> real option \<Rightarrow> state \<Rightarrow> (real \<times> state) option" where
  "yourPlay env txt start s =
     (case yourStation s of None \<Rightarrow> None
      | Some ys \<Rightarrow>
          (case player ys of None \<Rightarrow> None
           | Some p \<Rightarrow> Some (playSentence env You p txt start s)))"

text \<open>\<^verbatim>\<open>stn.player.playSentence(text, start)\<close> for the station object \<open>r\<close>.\<close>

definition stationPlay :: "env \<Rightarrow> ref \<Rightarrow> string \<Rightarrow> real \<Rightarrow> state \<Rightarrow> (real \<times> state) option" where
  "stationPlay env r txt start s =
     (case player (stations s r) of None \<Rightarrow> None
      | Some p \<Rightarrow> Some (playSentence env (Stn r) p txt (Some start) s))"

subsection \<open>The helpers of util.js\<close>

text \<open>
  Modelled from the spec: \<^verbatim>\<open>updateActiveStations\<close>, \<^verbatim>\<open>clearTable\<close> and \<^verbatim>\<open>addTableRow\<close> of
  util.js are missing. Section 6: the core reports the "current Station Registry size" and
  feeds an "append-only table of ContactRecord; clear-on-reset".
\<close>

definition updateActiveStations :: "nat \<Rightarrow> state \<Rightarrow> state" where
  "updateActiveStations n s = s\<lparr>activeStationsShown := n\<rparr>"

definition clearTable :: "state \<Rightarrow> state" where
  "clearTable s = s\<lparr>resultsTable := []\<rparr>"

definition addTableRow :: "contact \<Rightarrow> state \<Rightarrow> state" where
  "addTableRow row s = s\<lparr>resultsTable := resultsTable s @ [row]\<rparr>"

text \<open>
  Modelled from the spec: \<^verbatim>\<open>addStations\<close> of util.js is missing. Section 4.5: a call
  "populates the Station Registry with new stations". The generated stations
  (\<open>newStations\<close>) become fresh objects pushed onto the array.
\<close>

definition pushStation :: "station \<Rightarrow> state \<Rightarrow> state" where
  "pushStation stn s =
     s\<lparr>stations := (stations s)(nextRef s := stn),
       currentStations := currentStations s @ [nextRef s],
       nextRef := Suc (nextRef s)\<rparr>"

definition addStations :: "env \<Rightarrow> state \<Rightarrow> state" where
  "addStations env s = fold pushStation (newStations env) s"

text \<open>
  Modelled from the spec: \<^verbatim>\<open>respondWithAllStations\<close> of util.js is missing. Section 5:
  "each station's reply is scheduled to start after the previous one's computed end";
  section 4.5: every targeted station resends its callsign; section 3: a station's player
  is "created lazily, replaced if timing parameters change". A station that is about to
  reply keeps its bound player when that player was built from the station's present
  timing parameters; it gets a new one when it has none or when the parameters differ.
\<close>

definition boundPlayer :: "station \<Rightarrow> player" where
  "boundPlayer stn =
     (case player stn of
        None \<Rightarrow> createMorsePlayer stn
      | Some q \<Rightarrow>
          if p_wpm q = wpm stn \<and> p_enableFarnsworth q = enableFarnsworth stn \<and>
             p_farnsworthSpeed q = farnsworthSpeed stn
          then q else createMorsePlayer stn)"

fun respondWithAllStations :: "env \<Rightarrow> ref list \<Rightarrow> real \<Rightarrow> state \<Rightarrow> state" where
  "respondWithAllStations env [] t s = s"
| "respondWithAllStations env (r # rs) t s =
     (let stn = stations s r;
          p = boundPlayer stn;
          s1 = updStation r (\<lambda>x. x\<lparr>player := Some p\<rparr>) s;
          (t', s2) = playSentence env (Stn r) p (callsign stn) (Some t) s1
      in respondWithAllStations env rs t' (updateAudioLock t' s2))"

subsection \<open>app.js: mode table, reset of the game state, next station\<close>

definition getModeConfig :: "env \<Rightarrow> state \<Rightarrow> modeConfig" where
  "getModeConfig env s = modeLogicConfig env (currentMode s)"

text \<open>Of \<^verbatim>\<open>applyModeSettings\<close> only the clearing of hidden info fields touches the session.\<close>

definition applyModeSettings :: "env \<Rightarrow> string \<Rightarrow> state \<Rightarrow> state" where
  "applyModeSettings env m s =
     s\<lparr>infoField := (if showInfoField env m then infoField s else []),
       infoField2 := (if showInfoField2 env m then infoField2 s else [])\<rparr>"

definition resetGameState :: "state \<Rightarrow> state" where
  "resetGameState s =
     (let s1 = s\<lparr>currentStations := [], currentStation := None, activeStationIndex := None,
                 readyForTU := False, currentStationAttempts := 0,
                 currentStationStartTime := None, totalContacts := 0\<rparr>;
          s2 = clearTable (updateActiveStations 0 s1);
          s3 = s2\<lparr>responseField := [], infoField := [], infoField2 := [],
                  cqButtonDisabled := False\<rparr>
      in updateAudioLock 0 (stopAllAudio s3))"

definition changeMode :: "env \<Rightarrow> state \<Rightarrow> state" where
  "changeMode env s =
     (let s1 = s\<lparr>currentMode := selectedMode env\<rparr>
      in applyModeSettings env (currentMode s1) (resetGameState s1))"

definition nextSingleStation :: "env \<Rightarrow> real \<Rightarrow> state \<Rightarrow> state" where
  "nextSingleStation env responseStartTime s =
     (let modeConfig = getModeConfig env s;
          r = nextRef s;
          callingStation = getCallingStation env;
          s1 = s\<lparr>stations := (stations s)(r := callingStation), nextRef := Suc r,
                 currentStation := Some r, currentStationAttempts := 0\<rparr>;
          s2 = updateActiveStations 1 s1;
          p = createMorsePlayer callingStation;
          s3 = updStation r (\<lambda>x. x\<lparr>player := Some p\<rparr>) s2;
          (theirResponseTimer, s4) =
             playSentence env (Stn r) p (callsign callingStation)
               (Some (responseStartTime + random env + 1)) s3;
          s5 = updateAudioLock theirResponseTimer s4
      in s5\<lparr>currentStationStartTime := Some theirResponseTimer, responseField := [],
            cqButtonDisabled := (\<not> showTuStep modeConfig \<and> currentStation s5 \<noteq> None)\<rparr>)"

subsection \<open>app.js: cq\<close>

definition cq :: "env \<Rightarrow> state \<Rightarrow> result" where
  "cq env s =
     (if getAudioLock env s then Inr s
      else
        let modeConfig = getModeConfig env s in
        if \<not> showTuStep modeConfig \<and> currentStation s \<noteq> None then Inr s
        else
          let (backgroundStaticDelay, s1) =
                (if \<not> isBackgroundStaticPlaying s then (2, createBackgroundStatic s)
                 else (0, s));
              s2 = s1\<lparr>inputs := getInputs env\<rparr>
          in
            if inputs s2 = None then Inr s2
            else
              let ys = getYourStation env;
                  ys' = ys\<lparr>player := Some (createMorsePlayer ys)\<rparr>;
                  s3 = s2\<lparr>yourStation := Some ys'\<rparr>;
                  cqMsg = cqMessage modeConfig ys' None None
              in
                orRaise (yourPlay env cqMsg (Some (now env + backgroundStaticDelay)) s3) s3
                  (\<lambda>(yourResponseTimer, s4).
                    let s5 = updateAudioLock yourResponseTimer s4 in
                    if showTuStep modeConfig then
                      let s6 = addStations env s5;
                          s7 = respondWithAllStations env (currentStations s6)
                                 yourResponseTimer s6
                      in Inr (s7\<lparr>lastRespondingStations := Some (currentStations s7)\<rparr>)
                    else
                      Inr (nextSingleStation env yourResponseTimer
                             (s5\<lparr>cqButtonDisabled := True\<rparr>))))"

subsection \<open>app.js: send\<close>

text \<open>The body applied to each targeted station by a \<^verbatim>\<open>QRS\<close> send (lines 575-583, 695-703).\<close>

definition qrsLower :: "station \<Rightarrow> station" where
  "qrsLower stn =
     (if enableFarnsworth stn
      then stn\<lparr>farnsworthSpeed := max 5 (farnsworthSpeed stn - farnsworthLowerBy)\<rparr>
      else stn\<lparr>enableFarnsworth := True, farnsworthSpeed := wpm stn - farnsworthLowerBy\<rparr>)"

text \<open>\<^verbatim>\<open>text.replace(/\d/g, (digit) => cutMap[digit] || digit)\<close>\<close>

definition isDigit :: "char \<Rightarrow> bool" where
  "isDigit c = (c \<in> set ''0123456789'')"

definition cutDigit :: "(char \<Rightarrow> string option) \<Rightarrow> char \<Rightarrow> string" where
  "cutDigit cutMap digit =
     (case cutMap digit of None \<Rightarrow> [digit] | Some l \<Rightarrow> if l = [] then [digit] else l)"

definition replaceDigits :: "(char \<Rightarrow> string option) \<Rightarrow> string \<Rightarrow> string" where
  "replaceDigits cutMap txt =
     concat (map (\<lambda>c. if isDigit c then cutDigit cutMap c else [c]) txt)"

fun indexOf :: "'a list \<Rightarrow> 'a \<Rightarrow> nat option" where
  "indexOf [] x = None"
| "indexOf (y # ys) x = (if y = x then Some 0 else map_option Suc (indexOf ys x))"

definition bumpAttempts :: "state \<Rightarrow> state" where
  "bumpAttempts s = s\<lparr>currentStationAttempts := currentStationAttempts s + 1\<rparr>"

definition wpmString :: "env \<Rightarrow> station \<Rightarrow> string" where
  "wpmString env stn =
     toStr env (JNum (wpm stn)) @
     (if enableFarnsworth stn then '' / '' @ toStr env (JNum (farnsworthSpeed stn)) else [])"

definition elapsed :: "env \<Rightarrow> state \<Rightarrow> real" where
  "elapsed env s = now env - (case currentStationStartTime s of None \<Rightarrow> 0 | Some t \<Rightarrow> t)"

text \<open>Lines 591-671: the fuzzy evaluation of the multi-station branch.\<close>

definition send_multi_match :: "env \<Rightarrow> modeConfig \<Rightarrow> string \<Rightarrow> real \<Rightarrow> state \<Rightarrow> result" where
  "send_multi_match env modeConfig responseFieldText yourResponseTimer s =
     (let results = map (\<lambda>r. compareStrings env (callsign (stations s r))
                                (remove1 CHR ''?'' responseFieldText)) (currentStations s);
          hasQuestionMark = (CHR ''?'' \<in> set responseFieldText)
      in
        case indexOf results Perfect of
          Some matchIndex \<Rightarrow>
            (let r = currentStations s ! matchIndex in
             if hasQuestionMark then
               orRaise (stationPlay env r ''RR'' (yourResponseTimer + 0.25) s) s
                 (\<lambda>(theirResponseTimer, s1).
                    Inr (bumpAttempts (updateAudioLock theirResponseTimer s1)))
             else
               orRaise (yourStation s) s (\<lambda>ys.
               let yourExchange0 = '' '' @ yourExchange modeConfig ys (Some (stations s r)) None;
                   theirExchange0 = theirExchange modeConfig ys (Some (stations s r)) None
               in
               orRaise (inputs s) s (\<lambda>inp.
               let (yourExchange1, theirExchange1) =
                     (if enableCutNumbers inp
                      then (replaceDigits (cutNumbers inp) yourExchange0,
                            replaceDigits (cutNumbers inp) theirExchange0)
                      else (yourExchange0, theirExchange0))
               in
               orRaise (yourPlay env yourExchange1 (Some yourResponseTimer) s) s
                 (\<lambda>(yourResponseTimer2, s1).
               let s2 = updateAudioLock yourResponseTimer2 s1 in
               orRaise (stationPlay env r theirExchange1 (yourResponseTimer2 + 0.5) s2) s2
                 (\<lambda>(theirResponseTimer, s3).
               let s4 = bumpAttempts (updateAudioLock theirResponseTimer s3)
               in Inr (s4\<lparr>readyForTU := True, activeStationIndex := Some matchIndex\<rparr>))))))
        | None \<Rightarrow>
            if Partial \<in> set results then
              let partialMatchStations =
                    map fst (filter (\<lambda>(r, res). res = Partial) (zip (currentStations s) results));
                  s1 = respondWithAllStations env partialMatchStations yourResponseTimer s
              in Inr (bumpAttempts (s1\<lparr>lastRespondingStations := Some partialMatchStations\<rparr>))
            else Inr (bumpAttempts s))"

text \<open>Lines 553-671: the multi-station branch.\<close>

definition send_multi :: "env \<Rightarrow> modeConfig \<Rightarrow> string \<Rightarrow> state \<Rightarrow> result" where
  "send_multi env modeConfig responseFieldText s =
     (if currentStations s = [] then Inr s
      else
        orRaise (yourPlay env responseFieldText None s) s (\<lambda>(yourResponseTimer, s1).
        let s2 = updateAudioLock yourResponseTimer s1 in
        if responseFieldText = ''?'' \<or> responseFieldText = ''AGN'' \<or> responseFieldText = ''AGN?''
        then
          let s3 = respondWithAllStations env (currentStations s2) yourResponseTimer s2
          in Inr (bumpAttempts (s3\<lparr>lastRespondingStations := Some (currentStations s3)\<rparr>))
        else if responseFieldText = ''QRS'' then
          orRaise (lastRespondingStations s2) s2 (\<lambda>lrs.
          let s3 = fold (\<lambda>r. updStation r qrsLower) lrs s2;
              s4 = respondWithAllStations env lrs yourResponseTimer s3
          in Inr (bumpAttempts s4))
        else send_multi_match env modeConfig responseFieldText yourResponseTimer s2))"

text \<open>Lines 732-789: the completed contact of single mode.\<close>

definition send_single_perfect :: "env \<Rightarrow> modeConfig \<Rightarrow> ref \<Rightarrow> real \<Rightarrow> state \<Rightarrow> result" where
  "send_single_perfect env modeConfig r yourResponseTimer s =
     orRaise (yourStation s) s (\<lambda>ys.
     let yourExchange0 = '' '' @ yourExchange modeConfig ys (Some (stations s r)) None;
         theirExchange0 = theirExchange modeConfig ys (Some (stations s r)) None
     in
     orRaise (yourPlay env yourExchange0 (Some yourResponseTimer) s) s
       (\<lambda>(yourResponseTimer2, s1).
     let s2 = updateAudioLock yourResponseTimer2 s1 in
     orRaise (stationPlay env r theirExchange0 (yourResponseTimer2 + 0.5) s2) s2
       (\<lambda>(theirResponseTimer, s3).
     let s4 = updateAudioLock theirResponseTimer s3;
         yourSignoff0 = yourSignoff modeConfig ys (Some (stations s4 r)) None
     in
     orRaise (yourPlay env yourSignoff0 (Some (theirResponseTimer + 0.5)) s4) s4
       (\<lambda>(yourResponseTimer3, s5).
     let s6 = updateAudioLock yourResponseTimer3 s5 in
     orRaise (theirSignoff modeConfig) s6 (\<lambda>f.
     let theirSignoff0 = f ys (Some (stations s6 r)) None in
     orRaise (stationPlay env r theirSignoff0 (yourResponseTimer3 + 0.5) s6) s6
       (\<lambda>(theirResponseTimer2, s7).
     let s8 = updateAudioLock theirResponseTimer2 s7;
         s9 = s8\<lparr>totalContacts := totalContacts s8 + 1\<rparr>;
         stn = stations s9 r;
         s10 = addTableRow
                 \<lparr>c_number = totalContacts s9, c_callsign = callsign stn,
                  c_wpmString = wpmString env stn, c_attempts = currentStationAttempts s9,
                  c_elapsed = elapsed env s9, c_extraInfo = []\<rparr> s9
     in Inr (nextSingleStation env theirResponseTimer2 s10)))))))"

text \<open>Lines 674-807: the single-mode branch.\<close>

definition send_single :: "env \<Rightarrow> modeConfig \<Rightarrow> string \<Rightarrow> state \<Rightarrow> result" where
  "send_single env modeConfig responseFieldText s =
     (case currentStation s of
        None \<Rightarrow> Inr s
      | Some r \<Rightarrow>
        orRaise (yourPlay env responseFieldText None s) s (\<lambda>(yourResponseTimer, s1).
        let s2 = updateAudioLock yourResponseTimer s1 in
        if responseFieldText = ''?'' \<or> responseFieldText = ''AGN'' \<or> responseFieldText = ''AGN?''
        then
          orRaise (stationPlay env r (callsign (stations s2 r))
                     (yourResponseTimer + random env + 0.25) s2) s2
            (\<lambda>(theirResponseTimer, s3).
               Inr (bumpAttempts (updateAudioLock theirResponseTimer s3)))
        else if responseFieldText = ''QRS'' then
          let s3 = updStation r qrsLower s2;
              s4 = updStation r (\<lambda>x. x\<lparr>player := Some (createMorsePlayer x)\<rparr>) s3
          in
          orRaise (stationPlay env r (callsign (stations s4 r))
                     (yourResponseTimer + random env + 0.25) s4) s4
            (\<lambda>(theirResponseTimer, s5).
               Inr (bumpAttempts (updateAudioLock theirResponseTimer s5)))
        else
          let compareResult = compareStrings env (callsign (stations s2 r))
                                (remove1 CHR ''?'' responseFieldText)
          in
          if compareResult = Perfect then
            let s3 = bumpAttempts s2 in
            if CHR ''?'' \<in> set responseFieldText then
              orRaise (stationPlay env r ''RR'' (yourResponseTimer + 1) s3) s3
                (\<lambda>(theirResponseTimer, s4). Inr (updateAudioLock theirResponseTimer s4))
            else send_single_perfect env modeConfig r yourResponseTimer s3
          else if compareResult = Partial then
            let s3 = bumpAttempts s2 in
            orRaise (stationPlay env r (callsign (stations s3 r))
                       (yourResponseTimer + random env + 0.25) s3) s3
              (\<lambda>(theirResponseTimer, s4). Inr (updateAudioLock theirResponseTimer s4))
          else
            let s3 = bumpAttempts s2 in
            orRaise (stationPlay env r (callsign (stations s3 r))
                       (yourResponseTimer + random env + 0.25) s3) s3
              (\<lambda>(theirResponseTimer, s4). Inr (updateAudioLock theirResponseTimer s4))))"

definition send :: "env \<Rightarrow> state \<Rightarrow> result" where
  "send env s =
     (if getAudioLock env s then Inr s
      else
        let modeConfig = getModeConfig env s;
            responseFieldText = toUpperCase env (trim env (responseField s))
        in
          if responseFieldText = [] then
            (if currentStations s = [] then cq env s else Inr s)
          else if showTuStep modeConfig then send_multi env modeConfig responseFieldText s
          else send_single env modeConfig responseFieldText s)"

subsection \<open>app.js: compareExtraInfo and tu\<close>

text \<open>The three template literals of \<^verbatim>\<open>compareExtraInfo\<close>; \<open>n\<close> is the indentation in the source.\<close>

definition spanIncomplete :: "string \<Rightarrow> string" where
  \<open>spanIncomplete expected =
     ''<span class="text-warning">'' @ [CHR 0x0A] @ replicate 16 CHR '' '' @
     ''<i class="fa-solid fa-triangle-exclamation me-1"></i>'' @ [CHR 0x0A] @
     replicate 14 CHR '' '' @ ''</span> ('' @ expected @ '')''\<close>

definition spanCorrect :: "nat \<Rightarrow> string \<Rightarrow> string" where
  \<open>spanCorrect n given =
     ''<span class="text-success">'' @ [CHR 0x0A] @ replicate (n + 2) CHR '' '' @
     ''<i class="fa-solid fa-check me-1"></i><strong>'' @ given @ ''</strong>'' @ [CHR 0x0A] @
     replicate n CHR '' '' @ ''</span>''\<close>

definition spanWrong :: "nat \<Rightarrow> string \<Rightarrow> string \<Rightarrow> string" where
  \<open>spanWrong n given expected =
     ''<span class="text-warning">'' @ [CHR 0x0A] @ replicate (n + 2) CHR '' '' @
     ''<i class="fa-solid fa-triangle-exclamation me-1"></i>'' @ given @ [CHR 0x0A] @
     replicate n CHR '' '' @ ''</span> ('' @ expected @ '')''\<close>

text \<open>\<open>None\<close> is the \<^verbatim>\<open>TypeError\<close> of reading a property of an undefined station.\<close>

definition compareExtraInfo ::
  "env \<Rightarrow> string option \<Rightarrow> string \<Rightarrow> station option \<Rightarrow> string option" where
  "compareExtraInfo env fieldKey userInput callingStation =
     (if fieldKey = None \<or> fieldKey = Some [] then Some []
      else
        case callingStation of
          None \<Rightarrow> None
        | Some stn \<Rightarrow>
            (let key = the fieldKey;
                 expectedValue = attrs stn key
             in
               if key = ''serialNumber'' \<or> key = ''cwopsNumber'' then
                 (case parseInt env userInput of
                    None \<Rightarrow> Some (spanIncomplete (toStr env expectedValue))
                  | Some userValInt \<Rightarrow>
                      if toNumber env expectedValue = Some userValInt
                      then Some (spanCorrect 9 (toStr env (JNum userValInt)))
                      else Some (spanWrong 9 (toStr env (JNum userValInt))
                                   (toStr env expectedValue)))
               else
                 let upperExpectedValue = toUpperCase env (toStr env expectedValue);
                     userInput1 = trim env (toUpperCase env userInput)
                 in
                   if upperExpectedValue = [] then Some ''N/A''
                   else if userInput1 = upperExpectedValue then Some (spanCorrect 7 userInput1)
                   else Some (spanWrong 7 userInput1 upperExpectedValue)))"

text \<open>\<^verbatim>\<open>currentStations[activeStationIndex]\<close>: \<open>None\<close> is \<^verbatim>\<open>undefined\<close>.\<close>

definition validIndex :: "state \<Rightarrow> nat option" where
  "validIndex s =
     (case activeStationIndex s of
        None \<Rightarrow> None
      | Some i \<Rightarrow> if i < length (currentStations s) then Some i else None)"

text \<open>Lines 885-925: the contact is logged, the worked station removed, the round goes on.\<close>

definition tu_finish :: "env \<Rightarrow> string \<Rightarrow> real \<Rightarrow> nat \<Rightarrow> state \<Rightarrow> state" where
  "tu_finish env extraInfo responseTimerToUse i s4 =
     (let r = currentStations s4 ! i;
          stn = stations s4 r;
          s5 = addTableRow
                 \<lparr>c_number = totalContacts s4, c_callsign = callsign stn,
                  c_wpmString = wpmString env stn, c_attempts = currentStationAttempts s4,
                  c_elapsed = elapsed env s4, c_extraInfo = extraInfo\<rparr> s4;
          s6 = s5\<lparr>currentStations := take i (currentStations s5) @
                                       drop (Suc i) (currentStations s5),
                  activeStationIndex := None, currentStationAttempts := 0,
                  readyForTU := False\<rparr>;
          s7 = updateActiveStations (length (currentStations s6)) s6;
          s8 = s7\<lparr>responseField := [], infoField := [], infoField2 := []\<rparr>;
          s9 = (if random env < 0.4 \<or> enableContinuous env then addStations env s8 else s8);
          s10 = respondWithAllStations env (currentStations s9) responseTimerToUse s9
      in s10\<lparr>lastRespondingStations := Some (currentStations s10),
              currentStationStartTime := Some (now env)\<rparr>)"

definition tu :: "env \<Rightarrow> state \<Rightarrow> result" where
  "tu env s =
     (if getAudioLock env s then Inr s
      else
        let modeConfig = getModeConfig env s in
        if \<not> showTuStep modeConfig \<or> \<not> readyForTU s then Inr s
        else
          let infoValue1 = trim env (infoField s);
              infoValue2 = trim env (infoField2 s);
              idx = validIndex s;
              stnRef = map_option (\<lambda>i. currentStations s ! i) idx;
              s1 = s\<lparr>totalContacts := totalContacts s + 1\<rparr>;
              stnObj = map_option (stations s1) stnRef
          in
          orRaise (compareExtraInfo env (extraInfoFieldKey modeConfig) infoValue1 stnObj) s1
            (\<lambda>extraInfo1.
          orRaise
            (if requiresInfoField2 modeConfig \<and> extraInfoFieldKey2 modeConfig \<noteq> None
                \<and> extraInfoFieldKey2 modeConfig \<noteq> Some []
             then map_option
                    (\<lambda>e2. (if extraInfo1 \<noteq> [] then extraInfo1 @ '' / '' else extraInfo1) @ e2)
                    (compareExtraInfo env (extraInfoFieldKey2 modeConfig) infoValue2 stnObj)
             else Some extraInfo1) s1
            (\<lambda>extraInfo.
          let arbitrary =
                (if currentMode s1 = ''sst'' then Some infoValue1
                 else if currentMode s1 = ''pota'' then Some infoValue1 else None)
          in
          orRaise (yourStation s1) s1 (\<lambda>ys.
          let yourSignoffMessage = yourSignoff modeConfig ys stnObj arbitrary in
          orRaise (yourPlay env yourSignoffMessage (Some (now env + 0.5)) s1) s1
            (\<lambda>(yourResponseTimer, s2).
          let s3 = updateAudioLock yourResponseTimer s2 in
          orRaise
            (case theirSignoff modeConfig of
               None \<Rightarrow> Some (yourResponseTimer, s3)
             | Some f \<Rightarrow>
                 (case stnRef of
                    None \<Rightarrow> None
                  | Some r \<Rightarrow>
                      map_option (\<lambda>(t, s'). (t, updateAudioLock t s'))
                        (stationPlay env r (f ys stnObj None) (yourResponseTimer + 0.5) s3))) s3
            (\<lambda>(responseTimerToUse, s4).
          orRaise idx s4 (\<lambda>i. Inr (tu_finish env extraInfo responseTimerToUse i s4))))))))"

subsection \<open>app.js: stop and reset\<close>

definition stop :: "state \<Rightarrow> state" where
  "stop s =
     (let s1 = stopAllAudio s;
          s2 = s1\<lparr>cqButtonDisabled := False\<rparr>
      in
        if currentMode s2 = ''single''
        then updateActiveStations 0
               (s2\<lparr>currentStation := None, currentStationAttempts := 0,
                   currentStationStartTime := None\<rparr>)
        else s2)"

definition reset :: "state \<Rightarrow> state" where
  "reset s =
     (let s1 = clearTable s;
          s2 = s1\<lparr>totalContacts := 0, currentStation := None, currentStationAttempts := 0,
                  currentStationStartTime := None, currentStations := [],
                  activeStationIndex := None, readyForTU := False\<rparr>;
          s3 = stopAllAudio (updateAudioLock 0 (updateActiveStations 0 s2));
          s4 = s3\<lparr>responseField := [], infoField := [], infoField2 := []\<rparr>
      in s4\<lparr>cqButtonDisabled := False\<rparr>)"

subsection \<open>The session as a transition system\<close>

text \<open>
  The user's actions: the five buttons, a change of the mode radio, and typing into the
  three text fields. The page starts with the module's initial values, the saved mode,
  \<^verbatim>\<open>resetGameState()\<close> and \<^verbatim>\<open>applyModeSettings(currentMode)\<close>.
\<close>

datatype action =
  Cq | Send | Tu | Stop | Reset | ChangeMode
  | TypeResponse string | TypeInfo string | TypeInfo2 string

definition step :: "env \<Rightarrow> action \<Rightarrow> state \<Rightarrow> state" where
  "step env a s =
     (case a of
        Cq \<Rightarrow> after (cq env s)
      | Send \<Rightarrow> after (send env s)
      | Tu \<Rightarrow> after (tu env s)
      | Stop \<Rightarrow> stop s
      | Reset \<Rightarrow> reset s
      | ChangeMode \<Rightarrow> changeMode env s
      | TypeResponse x \<Rightarrow> s\<lparr>responseField := x\<rparr>
      | TypeInfo x \<Rightarrow> s\<lparr>infoField := x\<rparr>
      | TypeInfo2 x \<Rightarrow> s\<lparr>infoField2 := x\<rparr>)"

definition initial :: "env \<Rightarrow> string \<Rightarrow> (ref \<Rightarrow> station) \<Rightarrow> state" where
  "initial env savedMode store =
     applyModeSettings env savedMode
       (resetGameState
          \<lparr>currentMode = savedMode, inputs = None, currentStations = [],
           currentStation = None, activeStationIndex = None, readyForTU = False,
           currentStationAttempts = 0, currentStationStartTime = None, totalContacts = 0,
           yourStation = None, lastRespondingStations = None, stations = store,
           nextRef = 0, audioLock = 0, staticPlaying = False, scheduled = [],
           responseField = [], infoField = [], infoField2 = [],
           cqButtonDisabled = False, resultsTable = [], activeStationsShown = 0\<rparr>)"

inductive reachable :: "state \<Rightarrow> bool" where
  reach_initial: "reachable (initial env savedMode store)"
| reach_step: "reachable s \<Longrightarrow> reachable (step env a s)"

subsection \<open>A concrete session\<close>

text \<open>
  A small instance of the collaborators, used to run the handlers on concrete inputs: two
  modes (\<^verbatim>\<open>single\<close> without a TU step, every other mode with one), a matcher that knows
  only equality, tones that last one second, and identity string built-ins.
\<close>

definition exStation :: "string \<Rightarrow> int \<Rightarrow> station" where
  "exStation cs w =
     \<lparr>callsign = cs, wpm = w, enableFarnsworth = False, farnsworthSpeed = 0,
      attrs = (\<lambda>k. JUndefined), player = None\<rparr>"

definition exMode :: "bool \<Rightarrow> modeConfig" where
  "exMode tuStep =
     \<lparr>showTuStep = tuStep, requiresInfoField = False, requiresInfoField2 = False,
      extraInfoFieldKey = None, extraInfoFieldKey2 = None,
      cqMessage = (\<lambda>you them extra. ''CQ''),
      yourExchange = (\<lambda>you them extra. ''5NN 001''),
      theirExchange = (\<lambda>you them extra. ''5NN 120''),
      yourSignoff = (\<lambda>you them extra. ''TU''),
      theirSignoff = Some (\<lambda>you them extra. ''EE'')\<rparr>"

definition exEnv :: env where
  "exEnv =
     \<lparr>modeLogicConfig = (\<lambda>m. exMode (m \<noteq> ''single'')),
      compareStrings = (\<lambda>a b. if a = b then Perfect else NoMatch),
      playEnd = (\<lambda>p txt start. (case start of None \<Rightarrow> 0 | Some t \<Rightarrow> t) + 1),
      getInputs = Some \<lparr>enableCutNumbers = True, cutNumbers = [CHR ''0'' \<mapsto> ''T'']\<rparr>,
      getYourStation = exStation ''N0CALL'' 20,
      getCallingStation = exStation ''K1ABC'' 20,
      newStations = [exStation ''K1ABC'' 20, exStation ''W2XYZ'' 25],
      now = 100, random = 0.5, enableContinuous = False, selectedMode = ''contest'',
      showInfoField = (\<lambda>m. True), showInfoField2 = (\<lambda>m. False),
      toUpperCase = (\<lambda>x. x), trim = (\<lambda>x. x),
      parseInt = (\<lambda>x. None), toNumber = (\<lambda>v. None), toStr = (\<lambda>v. [])\<rparr>"

definition exStart :: "string \<Rightarrow> state" where
  "exStart m = initial exEnv m (\<lambda>r. exStation [] 0)"

text \<open>Two station objects that differ at most in the bound player.\<close>

definition sameButPlayer :: "station \<Rightarrow> station \<Rightarrow> bool" where
  "sameButPlayer a b =
     (callsign a = callsign b \<and> wpm a = wpm b \<and> enableFarnsworth a = enableFarnsworth b \<and>
      farnsworthSpeed a = farnsworthSpeed b \<and> attrs a = attrs b)"

definition exWithPlayer :: "station \<Rightarrow> station" where
  "exWithPlayer stn = stn\<lparr>player := Some (createMorsePlayer stn)\<rparr>"

definition exContest :: state where
  "exContest =
     (exStart ''contest'')
       \<lparr>inputs := getInputs exEnv, currentStations := [0, 1],
        yourStation := Some (exWithPlayer (exStation ''N0CALL'' 20)),
        lastRespondingStations := Some [0, 1],
        stations := (\<lambda>r. if r = 0 then exWithPlayer (exStation ''K1ABC'' 20)
                         else if r = 1 then exWithPlayer (exStation ''W2XYZ'' 25)
                         else exStation [] 0),
        nextRef := 2, staticPlaying := True\<rparr>"

definition exSingle :: state where
  "exSingle =
     (exStart ''single'')
       \<lparr>inputs := getInputs exEnv, currentStation := Some 0,
        yourStation := Some (exWithPlayer (exStation ''N0CALL'' 20)),
        stations := (\<lambda>r. if r = 0 then exWithPlayer (exStation ''K1ABC'' 20)
                         else exStation [] 0),
        nextRef := 1, staticPlaying := True, cqButtonDisabled := True\<rparr>"

text \<open>
  What holds of the session between user actions: a pending confirmation points at a
  station on the air, every station on the air is an allocated object with a player, and
  with stations on the air the trainee's station and its player exist.
\<close>

definition sessionInv :: "state \<Rightarrow> bool" where
  "sessionInv s \<longleftrightarrow>
     (readyForTU s \<longrightarrow> validIndex s \<noteq> None) \<and>
     (\<forall>r \<in> set (currentStations s). r < nextRef s \<and> player (stations s r) \<noteq> None) \<and>
     (currentStations s \<noteq> [] \<longrightarrow>
        (case yourStation s of None \<Rightarrow> False | Some ys \<Rightarrow> player ys \<noteq> None))"


definition exConfirm :: state where
  "exConfirm = exContest\<lparr>readyForTU := True, activeStationIndex := Some 0,
                          currentStationAttempts := 1\<rparr>"

text \<open>
  What else holds between user actions: the stations on the air and the stations that
  responded last are lists without repetition, stations on the air have responded, and an
  active single-mode station or a trainee's station implies the trainee's player exists.
\<close>

definition targetsInv :: "state \<Rightarrow> bool" where
  "targetsInv s \<longleftrightarrow>
     distinct (currentStations s) \<and>
     (case lastRespondingStations s of
        None \<Rightarrow> currentStations s = [] | Some lrs \<Rightarrow> distinct lrs) \<and>
     (case yourStation s of
        None \<Rightarrow> currentStation s = None | Some ys \<Rightarrow> player ys \<noteq> None)"

text \<open>What the confirm action reads: the registry, the flag and the index.\<close>

definition pending :: "state \<Rightarrow> ref list \<times> bool \<times> nat option" where
  "pending s = (currentStations s, readyForTU s, activeStationIndex s)"

section \<open>Properties\<close>

subsection \<open>The audio lock gates every action that keys audio\<close>

text \<open>
  C5. While the clock is still before the lock watermark, each of the three handlers that
  would produce audio (call, send, confirm) returns at once: nothing is scheduled and the
  session is left exactly as it was.
\<close>

theorem lock_busy_declines:
  "getAudioLock env s \<Longrightarrow> cq env s = Inr s \<and> send env s = Inr s \<and> tu env s = Inr s"
  by (simp add: cq_def send_def tu_def)

theorem lock_busy_declines_witness:
  "getAudioLock exEnv ((exStart ''single'')\<lparr>audioLock := 200\<rparr>) \<and>
   cq exEnv ((exStart ''single'')\<lparr>audioLock := 200\<rparr>) = Inr ((exStart ''single'')\<lparr>audioLock := 200\<rparr>) \<and>
   send exEnv ((exStart ''single'')\<lparr>audioLock := 200\<rparr>) = Inr ((exStart ''single'')\<lparr>audioLock := 200\<rparr>) \<and>
   tu exEnv ((exStart ''single'')\<lparr>audioLock := 200\<rparr>) = Inr ((exStart ''single'')\<lparr>audioLock := 200\<rparr>)"
proof -
  have busy: "getAudioLock exEnv ((exStart ''single'')\<lparr>audioLock := 200\<rparr>)"
    by (simp add: getAudioLock_def exEnv_def)
  from lock_busy_declines [OF busy] busy show ?thesis by simp
qed

subsection \<open>Reset\<close>

text \<open>
  C7. From every prior state, reset leaves the attempt counter and the contact counter at 0,
  the registry empty (the multi-station list and the single-mode station), the lock
  watermark at 0 (so the lock is free at any clock time from 0 on), the confirmation flag
  and the three text fields cleared, and the selected mode as it was.
\<close>

theorem reset_returns_to_idle:
  "currentStationAttempts (reset s) = 0 \<and> totalContacts (reset s) = 0 \<and>
   currentStations (reset s) = [] \<and> currentStation (reset s) = None \<and>
   audioLock (reset s) = 0 \<and> (0 \<le> now env \<longrightarrow> \<not> getAudioLock env (reset s)) \<and>
   \<not> readyForTU (reset s) \<and> activeStationIndex (reset s) = None \<and>
   responseField (reset s) = [] \<and> infoField (reset s) = [] \<and> infoField2 (reset s) = [] \<and>
   currentMode (reset s) = currentMode s"
  by (simp add: reset_def Let_def clearTable_def stopAllAudio_def updateAudioLock_def
        updateActiveStations_def getAudioLock_def)

theorem reset_returns_to_idle_witness:
  "0 \<le> now exEnv \<and> \<not> getAudioLock exEnv (reset ((exStart ''contest'')\<lparr>audioLock := 200\<rparr>)) \<and>
   audioLock (reset ((exStart ''contest'')\<lparr>audioLock := 200\<rparr>)) = 0"
  using reset_returns_to_idle [of "(exStart ''contest'')\<lparr>audioLock := 200\<rparr>" exEnv]
  by (simp add: exEnv_def)

subsection \<open>Auxiliary facts about the helpers\<close>

lemma orRaise_simps [simp]:
  "orRaise None s k = Inl (TypeError, s)"
  "orRaise (Some v) s k = k v"
  by (simp_all add: orRaise_def)

lemma after_simps [simp]: "after (Inr s) = s" "after (Inl (e, s)) = s"
  by (simp_all add: after_def)

lemma boundPlayer_eq: "boundPlayer stn = createMorsePlayer stn"
  by (cases "player stn") (auto simp: boundPlayer_def createMorsePlayer_def)

lemma createMorsePlayer_player [simp]:
  "createMorsePlayer (stn\<lparr>player := p\<rparr>) = createMorsePlayer stn"
  by (simp add: createMorsePlayer_def)

lemma respond_shape:
  "\<exists>st lk sch.
      respondWithAllStations env rs t s = s\<lparr>stations := st, audioLock := lk, scheduled := sch\<rparr> \<and>
      (\<forall>r. sameButPlayer (st r) (stations s r) \<and>
           (player (stations s r) \<noteq> None \<longrightarrow> player (st r) \<noteq> None) \<and>
           (r \<in> set rs \<longrightarrow> player (st r) = Some (createMorsePlayer (stations s r))) \<and>
           (r \<notin> set rs \<longrightarrow> player (st r) = player (stations s r)))"
proof (induction rs arbitrary: t s)
  case Nil
  show ?case
    by (intro exI [where x = "stations s"] exI [where x = "audioLock s"]
          exI [where x = "scheduled s"]) (simp add: sameButPlayer_def)
next
  case (Cons a rs)
  define p where "p = createMorsePlayer (stations s a)"
  define s1 where "s1 = updStation a (\<lambda>x. x\<lparr>player := Some p\<rparr>) s"
  define t' where "t' = playEnd env p (callsign (stations s a)) (Some t)"
  define s2 where "s2 = updateAudioLock t' (snd (playSentence env (Stn a) p (callsign (stations s a)) (Some t) s1))"
  have unfold: "respondWithAllStations env (a # rs) t s = respondWithAllStations env rs t' s2"
    by (simp add: Let_def p_def s1_def t'_def s2_def playSentence_def boundPlayer_eq)
  obtain st lk sch where
    eq: "respondWithAllStations env rs t' s2 = s2\<lparr>stations := st, audioLock := lk, scheduled := sch\<rparr>"
    and pl: "\<And>r. sameButPlayer (st r) (stations s2 r) \<and>
                (player (stations s2 r) \<noteq> None \<longrightarrow> player (st r) \<noteq> None) \<and>
                (r \<in> set rs \<longrightarrow> player (st r) = Some (createMorsePlayer (stations s2 r))) \<and>
                (r \<notin> set rs \<longrightarrow> player (st r) = player (stations s2 r))"
    using Cons.IH [of t' s2] by blast
  have s2_store: "stations s2 = (stations s)(a := (stations s a)\<lparr>player := Some p\<rparr>)"
    by (simp add: s2_def s1_def updStation_def updateAudioLock_def playSentence_def)
  have s2_eq: "s2\<lparr>stations := st, audioLock := lk, scheduled := sch\<rparr> =
               s\<lparr>stations := st, audioLock := lk, scheduled := sch\<rparr>"
    by (simp add: s2_def s1_def updStation_def updateAudioLock_def playSentence_def)
  have "sameButPlayer (st r) (stations s r) \<and>
        (player (stations s r) \<noteq> None \<longrightarrow> player (st r) \<noteq> None) \<and>
        (r \<in> set (a # rs) \<longrightarrow> player (st r) = Some (createMorsePlayer (stations s r))) \<and>
        (r \<notin> set (a # rs) \<longrightarrow> player (st r) = player (stations s r))" for r
    using pl [of r] s2_store by (cases "r = a") (auto simp: sameButPlayer_def p_def)
  with unfold eq s2_eq show ?case by metis
qed

text \<open>The replies keyed by \<^verbatim>\<open>respondWithAllStations\<close>, in order, each with its player.\<close>

lemma respond_scheduled:
  "map (\<lambda>tn. (t_sender tn, t_player tn, t_text tn))
       (scheduled (respondWithAllStations env rs t s)) =
   map (\<lambda>tn. (t_sender tn, t_player tn, t_text tn)) (scheduled s) @
   map (\<lambda>r. (Stn r, createMorsePlayer (stations s r), callsign (stations s r))) rs"
proof (induction rs arbitrary: t s)
  case Nil
  show ?case by simp
next
  case (Cons a rs)
  have same: "map (\<lambda>r. (Stn r,
                    createMorsePlayer (((stations s)(a := x\<lparr>player := q\<rparr>)) r),
                    callsign (((stations s)(a := x\<lparr>player := q\<rparr>)) r))) rs =
              map (\<lambda>r. (Stn r, createMorsePlayer (stations s r), callsign (stations s r))) rs"
    if "x = stations s a" for x q
    using that by (intro map_cong) auto
  show ?case
    by (simp add: Let_def playSentence_def updStation_def updateAudioLock_def boundPlayer_eq
          Cons.IH same)
qed

lemma fold_updStation:
  "distinct rs \<Longrightarrow>
   fold (\<lambda>r. updStation r f) rs s =
     s\<lparr>stations := (\<lambda>r. if r \<in> set rs then f (stations s r) else stations s r)\<rparr>"
proof (induction rs arbitrary: s)
  case Nil
  then show ?case by simp
next
  case (Cons a rs)
  then show ?case
    by (auto simp: updStation_def fun_eq_iff intro!: arg_cong [where f = "\<lambda>st. s\<lparr>stations := st\<rparr>"])
qed


lemma qrsLower_fields:
  "enableFarnsworth (qrsLower stn) \<and> wpm (qrsLower stn) = wpm stn \<and>
   callsign (qrsLower stn) = callsign stn \<and> player (qrsLower stn) = player stn \<and>
   farnsworthSpeed (qrsLower stn) =
     (if enableFarnsworth stn then max 5 (farnsworthSpeed stn - 6) else wpm stn - 6)"
  by (simp add: qrsLower_def farnsworthLowerBy_def)

lemma qrsLower_floor:
  "enableFarnsworth stn \<Longrightarrow> farnsworthSpeed stn = 5 \<Longrightarrow>
   farnsworthSpeed ((qrsLower ^^ n) stn) = 5 \<and> enableFarnsworth ((qrsLower ^^ n) stn)"
  by (induction n) (simp_all add: qrsLower_fields)

lemma send_multi_qrs:
  assumes "currentStations s \<noteq> []" "yourStation s = Some ys" "player ys = Some yp"
    "lastRespondingStations s = Some lrs" "distinct lrs"
  shows "\<exists>s'. send_multi env mc ''QRS'' s = Inr s' \<and>
           (\<forall>r. sameButPlayer (stations s' r)
                  (if r \<in> set lrs then qrsLower (stations s r) else stations s r) \<and>
                (r \<in> set lrs \<longrightarrow>
                   player (stations s' r) = Some (createMorsePlayer (qrsLower (stations s r))))) \<and>
           map (\<lambda>tn. (t_sender tn, t_player tn, t_text tn)) (scheduled s') =
             map (\<lambda>tn. (t_sender tn, t_player tn, t_text tn)) (scheduled s) @
             (You, yp, ''QRS'') #
             map (\<lambda>r. (Stn r, createMorsePlayer (qrsLower (stations s r)),
                          callsign (stations s r))) lrs \<and>
           currentStations s' = currentStations s \<and>
           currentStationAttempts s' = currentStationAttempts s + 1"
proof -
  define t where "t = playEnd env yp ''QRS'' None"
  define s2 where "s2 = updateAudioLock t (snd (playSentence env You yp ''QRS'' None s))"
  define s3 where "s3 = fold (\<lambda>r. updStation r qrsLower) lrs s2"
  have s3: "s3 = s2\<lparr>stations := (\<lambda>r. if r \<in> set lrs then qrsLower (stations s2 r) else stations s2 r)\<rparr>"
    unfolding s3_def using assms(5) by (rule fold_updStation)
  have s2: "stations s2 = stations s" "currentStations s2 = currentStations s"
    "currentStationAttempts s2 = currentStationAttempts s" "lastRespondingStations s2 = Some lrs"
    by (simp_all add: s2_def updateAudioLock_def playSentence_def assms)
  obtain st lk sch where
    eq: "respondWithAllStations env lrs t s3 = s3\<lparr>stations := st, audioLock := lk, scheduled := sch\<rparr>"
    and pl: "\<And>r. sameButPlayer (st r) (stations s3 r) \<and>
                (player (stations s3 r) \<noteq> None \<longrightarrow> player (st r) \<noteq> None) \<and>
                (r \<in> set lrs \<longrightarrow> player (st r) = Some (createMorsePlayer (stations s3 r))) \<and>
                (r \<notin> set lrs \<longrightarrow> player (st r) = player (stations s3 r))"
    using respond_shape [of env lrs t s3] by blast
  have sch: "map (\<lambda>tn. (t_sender tn, t_player tn, t_text tn))
               (scheduled (respondWithAllStations env lrs t s3)) =
             map (\<lambda>tn. (t_sender tn, t_player tn, t_text tn)) (scheduled s) @
             (You, yp, ''QRS'') #
             map (\<lambda>r. (Stn r, createMorsePlayer (qrsLower (stations s r)),
                          callsign (stations s r))) lrs"
    by (simp add: respond_scheduled s3 s2_def updateAudioLock_def playSentence_def
          qrsLower_fields cong: map_cong)
  have res: "send_multi env mc ''QRS'' s = Inr (bumpAttempts (respondWithAllStations env lrs t s3))"
    using assms s2
    by (simp add: send_multi_def yourPlay_def Let_def t_def s2_def s3_def playSentence_def)
  have "sameButPlayer (st r)
                  (if r \<in> set lrs then qrsLower (stations s r) else stations s r) \<and>
                (r \<in> set lrs \<longrightarrow>
                   player (st r) = Some (createMorsePlayer (qrsLower (stations s r))))" for r
    using pl [of r] s3 s2 by (auto simp: qrsLower_fields)
  moreover have "scheduled (bumpAttempts (respondWithAllStations env lrs t s3)) =
                 scheduled (respondWithAllStations env lrs t s3)"
    by (simp add: bumpAttempts_def)
  ultimately show ?thesis
    using res eq s3 s2 sch by (simp add: bumpAttempts_def)
qed

lemma send_single_qrs:
  assumes "currentStation s = Some r" "yourStation s = Some ys" "player ys = Some yp"
  shows "\<exists>s'. send_single env mc ''QRS'' s = Inr s' \<and>
           sameButPlayer (stations s' r) (qrsLower (stations s r)) \<and>
           player (stations s' r) = Some (createMorsePlayer (qrsLower (stations s r))) \<and>
           currentStation s' = Some r \<and>
           currentStationAttempts s' = currentStationAttempts s + 1"
  using assms
  by (simp add: send_single_def yourPlay_def stationPlay_def playSentence_def Let_def
        updateAudioLock_def updStation_def bumpAttempts_def sameButPlayer_def
        createMorsePlayer_def)

subsection \<open>QRS lowers the Farnsworth speed\<close>

text \<open>
  C1. A \<^verbatim>\<open>QRS\<close> send that is not declined applies \<open>qrsLower\<close> to every targeted station:
  all of \<^verbatim>\<open>lastRespondingStations\<close> in a mode with a TU step, the current station in single
  mode. \<open>qrsLower\<close> enables Farnsworth at \<open>wpm - 6\<close> when it was off and otherwise sets the
  speed to \<open>max 5 (farnsworthSpeed - 6)\<close>; from \<open>wpm = 20\<close> the speeds are 14, 8, 5, and 5
  after every further \<^verbatim>\<open>QRS\<close>. The trainee's player and, in a mode with a TU step, a
  repetition-free list of last responders are taken as given; they exist in every
  reachable session with a target (\<open>reachable_qrs_targets\<close>, at the end).
\<close>

theorem qrs_send_lowers_farnsworth:
  assumes free: "\<not> getAudioLock env s"
    and qrs: "toUpperCase env (trim env (responseField s)) = ''QRS''"
    and you: "yourStation s = Some ys" "player ys = Some yp"
  shows
    "(showTuStep (getModeConfig env s) \<and> currentStations s \<noteq> [] \<and>
      lastRespondingStations s = Some lrs \<and> distinct lrs \<longrightarrow>
        (\<exists>s'. send env s = Inr s' \<and>
           (\<forall>r \<in> set lrs.
              enableFarnsworth (stations s' r) \<and>
              farnsworthSpeed (stations s' r) = farnsworthSpeed (qrsLower (stations s r))))) \<and>
     (\<not> showTuStep (getModeConfig env s) \<and> currentStation s = Some r1 \<longrightarrow>
        (\<exists>s'. send env s = Inr s' \<and>
           enableFarnsworth (stations s' r1) \<and>
           farnsworthSpeed (stations s' r1) = farnsworthSpeed (qrsLower (stations s r1)))) \<and>
     (\<not> enableFarnsworth stn \<longrightarrow>
        enableFarnsworth (qrsLower stn) \<and> farnsworthSpeed (qrsLower stn) = wpm stn - 6) \<and>
     (enableFarnsworth stn \<longrightarrow>
        enableFarnsworth (qrsLower stn) \<and>
        farnsworthSpeed (qrsLower stn) = max 5 (farnsworthSpeed stn - 6)) \<and>
     (wpm stn = 20 \<and> \<not> enableFarnsworth stn \<longrightarrow>
        farnsworthSpeed (qrsLower stn) = 14 \<and>
        farnsworthSpeed (qrsLower (qrsLower stn)) = 8 \<and>
        farnsworthSpeed (qrsLower (qrsLower (qrsLower stn))) = 5 \<and>
        (\<forall>k. farnsworthSpeed ((qrsLower ^^ k) (qrsLower (qrsLower (qrsLower stn)))) = 5))"
proof (intro conjI impI)
  assume h: "showTuStep (getModeConfig env s) \<and> currentStations s \<noteq> [] \<and>
      lastRespondingStations s = Some lrs \<and> distinct lrs"
  then have eq: "send env s = send_multi env (getModeConfig env s) ''QRS'' s"
    using free qrs by (simp add: send_def Let_def)
  from h you send_multi_qrs [of s ys yp lrs env "getModeConfig env s"]
  obtain s' where s': "send_multi env (getModeConfig env s) ''QRS'' s = Inr s'"
    "\<And>r. sameButPlayer (stations s' r)
            (if r \<in> set lrs then qrsLower (stations s r) else stations s r)"
    by blast
  have "\<forall>r \<in> set lrs. enableFarnsworth (stations s' r) \<and>
          farnsworthSpeed (stations s' r) = farnsworthSpeed (qrsLower (stations s r))"
    using s'(2) by (auto simp: sameButPlayer_def qrsLower_fields)
  with eq s'(1) show "\<exists>s'. send env s = Inr s' \<and>
           (\<forall>r \<in> set lrs.
              enableFarnsworth (stations s' r) \<and>
              farnsworthSpeed (stations s' r) = farnsworthSpeed (qrsLower (stations s r)))"
    by simp
next
  assume h: "\<not> showTuStep (getModeConfig env s) \<and> currentStation s = Some r1"
  then have eq: "send env s = send_single env (getModeConfig env s) ''QRS'' s"
    using free qrs by (simp add: send_def Let_def)
  from h you send_single_qrs [of s r1 ys yp env "getModeConfig env s"]
  obtain s' where s': "send_single env (getModeConfig env s) ''QRS'' s = Inr s'"
    "sameButPlayer (stations s' r1) (qrsLower (stations s r1))"
    by blast
  with eq show "\<exists>s'. send env s = Inr s' \<and>
           enableFarnsworth (stations s' r1) \<and>
           farnsworthSpeed (stations s' r1) = farnsworthSpeed (qrsLower (stations s r1))"
    by (auto simp: sameButPlayer_def qrsLower_fields)
next
  assume h: "wpm stn = 20 \<and> \<not> enableFarnsworth stn"
  then show "farnsworthSpeed (qrsLower stn) = 14"
    "farnsworthSpeed (qrsLower (qrsLower stn)) = 8"
    by (simp_all add: qrsLower_fields)
  from h have five: "farnsworthSpeed (qrsLower (qrsLower (qrsLower stn))) = 5"
    by (simp add: qrsLower_fields)
  then show "farnsworthSpeed (qrsLower (qrsLower (qrsLower stn))) = 5" .
  from five show "\<forall>k. farnsworthSpeed ((qrsLower ^^ k) (qrsLower (qrsLower (qrsLower stn)))) = 5"
    using qrsLower_floor [of "qrsLower (qrsLower (qrsLower stn))"]
    by (simp add: qrsLower_fields)
qed (simp_all add: qrsLower_fields)

text \<open>The equations that evaluate the concrete session.\<close>

lemmas ex_defs = exContest_def exSingle_def exStart_def exEnv_def exMode_def exStation_def
  exWithPlayer_def initial_def resetGameState_def applyModeSettings_def clearTable_def
  stopAllAudio_def updateAudioLock_def updateActiveStations_def createMorsePlayer_def
  getAudioLock_def getModeConfig_def Let_def

theorem qrs_send_lowers_farnsworth_witness:
  "(\<exists>s'. send exEnv (exContest\<lparr>responseField := ''QRS''\<rparr>) = Inr s' \<and>
         enableFarnsworth (stations s' 0) \<and> farnsworthSpeed (stations s' 0) = 14 \<and>
         enableFarnsworth (stations s' 1) \<and> farnsworthSpeed (stations s' 1) = 19) \<and>
   (\<exists>s'. send exEnv (exSingle\<lparr>responseField := ''QRS''\<rparr>) = Inr s' \<and>
         enableFarnsworth (stations s' 0) \<and> farnsworthSpeed (stations s' 0) = 14) \<and>
   farnsworthSpeed ((qrsLower ^^ 4) (qrsLower (qrsLower (qrsLower (exStation ''K1ABC'' 20))))) = 5"
proof -
  have m: "\<exists>s'. send exEnv (exContest\<lparr>responseField := ''QRS''\<rparr>) = Inr s' \<and>
         enableFarnsworth (stations s' 0) \<and> farnsworthSpeed (stations s' 0) = 14 \<and>
         enableFarnsworth (stations s' 1) \<and> farnsworthSpeed (stations s' 1) = 19"
    using qrs_send_lowers_farnsworth [of exEnv "exContest\<lparr>responseField := ''QRS''\<rparr>"
        "exWithPlayer (exStation ''N0CALL'' 20)" "createMorsePlayer (exStation ''N0CALL'' 20)"
        "[0, 1]" 0 "exStation ''K1ABC'' 20"]
    by (simp add: ex_defs qrsLower_fields)
  have sg: "\<exists>s'. send exEnv (exSingle\<lparr>responseField := ''QRS''\<rparr>) = Inr s' \<and>
         enableFarnsworth (stations s' 0) \<and> farnsworthSpeed (stations s' 0) = 14"
    using qrs_send_lowers_farnsworth [of exEnv "exSingle\<lparr>responseField := ''QRS''\<rparr>"
        "exWithPlayer (exStation ''N0CALL'' 20)" "createMorsePlayer (exStation ''N0CALL'' 20)"
        "[]" 0 "exStation ''K1ABC'' 20"]
    by (simp add: ex_defs qrsLower_fields)
  have sq: "farnsworthSpeed ((qrsLower ^^ 4) (qrsLower (qrsLower (qrsLower (exStation ''K1ABC'' 20))))) = 5"
    using qrs_send_lowers_farnsworth [of exEnv "exSingle\<lparr>responseField := ''QRS''\<rparr>"
        "exWithPlayer (exStation ''N0CALL'' 20)" "createMorsePlayer (exStation ''N0CALL'' 20)"
        "[]" 0 "exStation ''K1ABC'' 20"]
    by (simp add: ex_defs)
  from m sg sq show ?thesis by blast
qed

text \<open>The equations that run \<^verbatim>\<open>send\<close> on a concrete session.\<close>

lemmas run_defs = send_def send_multi_def send_single_def send_multi_match_def
  send_single_perfect_def yourPlay_def stationPlay_def playSentence_def qrsLower_def
  farnsworthLowerBy_def updStation_def bumpAttempts_def nextSingleStation_def
  addTableRow_def wpmString_def elapsed_def replaceDigits_def cutDigit_def isDigit_def

subsection \<open>QRS and the station's player\<close>

lemma sameButPlayer_createMorsePlayer:
  "sameButPlayer a b \<Longrightarrow> createMorsePlayer a = createMorsePlayer b"
  by (simp add: sameButPlayer_def createMorsePlayer_def)

lemma send_single_qrs_tones:
  assumes "currentStation s = Some r" "yourStation s = Some ys" "player ys = Some yp"
  shows "\<exists>s'. send_single env mc ''QRS'' s = Inr s' \<and>
           map (\<lambda>tn. (t_sender tn, t_player tn, t_text tn)) (scheduled s') =
             map (\<lambda>tn. (t_sender tn, t_player tn, t_text tn)) (scheduled s) @
             [(You, yp, ''QRS''),
              (Stn r, createMorsePlayer (qrsLower (stations s r)), callsign (stations s r))]"
  using assms
  by (simp add: send_single_def yourPlay_def stationPlay_def playSentence_def Let_def
        updateAudioLock_def updStation_def bumpAttempts_def qrsLower_fields)

text \<open>
  C9. A \<^verbatim>\<open>QRS\<close> send that is not declined leaves every station it slowed with a player
  built from the station's updated timing parameters, and the resend of the callsign that
  the same send schedules for the station, its next transmission, is keyed with that new
  player: for every station of \<^verbatim>\<open>lastRespondingStations\<close> in a mode with a TU step, for the
  current station in single mode. In single mode the handler itself builds the player
  (line 705); in a mode with a TU step the handler changes the parameters only and the
  replacement is the part of \<^verbatim>\<open>respondWithAllStations\<close>, as modelled above.
\<close>

theorem qrs_send_replaces_player:
  assumes free: "\<not> getAudioLock env s"
    and qrs: "toUpperCase env (trim env (responseField s)) = ''QRS''"
    and you: "yourStation s = Some ys" "player ys = Some yp"
  shows
    "(showTuStep (getModeConfig env s) \<and> currentStations s \<noteq> [] \<and>
      lastRespondingStations s = Some lrs \<and> distinct lrs \<longrightarrow>
        (\<exists>s'. send env s = Inr s' \<and>
           (\<forall>r \<in> set lrs.
              player (stations s' r) = Some (createMorsePlayer (stations s' r)) \<and>
              createMorsePlayer (stations s' r) = createMorsePlayer (qrsLower (stations s r))) \<and>
           map (\<lambda>tn. (t_sender tn, t_player tn, t_text tn)) (scheduled s') =
             map (\<lambda>tn. (t_sender tn, t_player tn, t_text tn)) (scheduled s) @
             (You, yp, ''QRS'') #
             map (\<lambda>r. (Stn r, createMorsePlayer (qrsLower (stations s r)),
                          callsign (stations s r))) lrs)) \<and>
     (\<not> showTuStep (getModeConfig env s) \<and> currentStation s = Some r1 \<longrightarrow>
        (\<exists>s'. send env s = Inr s' \<and>
           player (stations s' r1) = Some (createMorsePlayer (stations s' r1)) \<and>
           createMorsePlayer (stations s' r1) = createMorsePlayer (qrsLower (stations s r1)) \<and>
           map (\<lambda>tn. (t_sender tn, t_player tn, t_text tn)) (scheduled s') =
             map (\<lambda>tn. (t_sender tn, t_player tn, t_text tn)) (scheduled s) @
             [(You, yp, ''QRS''),
              (Stn r1, createMorsePlayer (qrsLower (stations s r1)),
               callsign (stations s r1))]))"
proof (intro conjI impI)
  assume h: "showTuStep (getModeConfig env s) \<and> currentStations s \<noteq> [] \<and>
      lastRespondingStations s = Some lrs \<and> distinct lrs"
  then have eq: "send env s = send_multi env (getModeConfig env s) ''QRS'' s"
    using free qrs by (simp add: send_def Let_def)
  from h you send_multi_qrs [of s ys yp lrs env "getModeConfig env s"]
  obtain s' where s': "send_multi env (getModeConfig env s) ''QRS'' s = Inr s'"
    "\<And>r. sameButPlayer (stations s' r)
            (if r \<in> set lrs then qrsLower (stations s r) else stations s r) \<and>
          (r \<in> set lrs \<longrightarrow>
             player (stations s' r) = Some (createMorsePlayer (qrsLower (stations s r))))"
    "map (\<lambda>tn. (t_sender tn, t_player tn, t_text tn)) (scheduled s') =
             map (\<lambda>tn. (t_sender tn, t_player tn, t_text tn)) (scheduled s) @
             (You, yp, ''QRS'') #
             map (\<lambda>r. (Stn r, createMorsePlayer (qrsLower (stations s r)),
                          callsign (stations s r))) lrs"
    by blast
  have "\<forall>r \<in> set lrs.
              player (stations s' r) = Some (createMorsePlayer (stations s' r)) \<and>
              createMorsePlayer (stations s' r) = createMorsePlayer (qrsLower (stations s r))"
  proof
    fix r assume r: "r \<in> set lrs"
    with s'(2) [of r] have "sameButPlayer (stations s' r) (qrsLower (stations s r))"
      "player (stations s' r) = Some (createMorsePlayer (qrsLower (stations s r)))"
      by simp_all
    then show "player (stations s' r) = Some (createMorsePlayer (stations s' r)) \<and>
              createMorsePlayer (stations s' r) = createMorsePlayer (qrsLower (stations s r))"
      by (simp add: sameButPlayer_createMorsePlayer)
  qed
  with eq s'(1,3) show "\<exists>s'. send env s = Inr s' \<and>
           (\<forall>r \<in> set lrs.
              player (stations s' r) = Some (createMorsePlayer (stations s' r)) \<and>
              createMorsePlayer (stations s' r) = createMorsePlayer (qrsLower (stations s r))) \<and>
           map (\<lambda>tn. (t_sender tn, t_player tn, t_text tn)) (scheduled s') =
             map (\<lambda>tn. (t_sender tn, t_player tn, t_text tn)) (scheduled s) @
             (You, yp, ''QRS'') #
             map (\<lambda>r. (Stn r, createMorsePlayer (qrsLower (stations s r)),
                          callsign (stations s r))) lrs"
    by simp
next
  assume h: "\<not> showTuStep (getModeConfig env s) \<and> currentStation s = Some r1"
  then have eq: "send env s = send_single env (getModeConfig env s) ''QRS'' s"
    using free qrs by (simp add: send_def Let_def)
  from h you send_single_qrs [of s r1 ys yp env "getModeConfig env s"]
  obtain s' where s': "send_single env (getModeConfig env s) ''QRS'' s = Inr s'"
    "sameButPlayer (stations s' r1) (qrsLower (stations s r1))"
    "player (stations s' r1) = Some (createMorsePlayer (qrsLower (stations s r1)))"
    by blast
  from h you send_single_qrs_tones [of s r1 ys yp env "getModeConfig env s"] s'(1)
  have tones: "map (\<lambda>tn. (t_sender tn, t_player tn, t_text tn)) (scheduled s') =
             map (\<lambda>tn. (t_sender tn, t_player tn, t_text tn)) (scheduled s) @
             [(You, yp, ''QRS''),
              (Stn r1, createMorsePlayer (qrsLower (stations s r1)),
               callsign (stations s r1))]"
    by auto
  from eq s' tones show "\<exists>s'. send env s = Inr s' \<and>
           player (stations s' r1) = Some (createMorsePlayer (stations s' r1)) \<and>
           createMorsePlayer (stations s' r1) = createMorsePlayer (qrsLower (stations s r1)) \<and>
           map (\<lambda>tn. (t_sender tn, t_player tn, t_text tn)) (scheduled s') =
             map (\<lambda>tn. (t_sender tn, t_player tn, t_text tn)) (scheduled s) @
             [(You, yp, ''QRS''),
              (Stn r1, createMorsePlayer (qrsLower (stations s r1)),
               callsign (stations s r1))]"
    by (simp add: sameButPlayer_createMorsePlayer)
qed

theorem qrs_send_replaces_player_witness:
  "(\<exists>s'. send exEnv (exContest\<lparr>responseField := ''QRS''\<rparr>) = Inr s' \<and>
      player (stations s' 0) =
        Some \<lparr>p_wpm = 20, p_enableFarnsworth = True, p_farnsworthSpeed = 14\<rparr> \<and>
      player (stations s' 1) =
        Some \<lparr>p_wpm = 25, p_enableFarnsworth = True, p_farnsworthSpeed = 19\<rparr> \<and>
      map (\<lambda>tn. (t_sender tn, t_player tn, t_text tn)) (scheduled s') =
        [(You, \<lparr>p_wpm = 20, p_enableFarnsworth = False, p_farnsworthSpeed = 0\<rparr>, ''QRS''),
         (Stn 0, \<lparr>p_wpm = 20, p_enableFarnsworth = True, p_farnsworthSpeed = 14\<rparr>, ''K1ABC''),
         (Stn 1, \<lparr>p_wpm = 25, p_enableFarnsworth = True, p_farnsworthSpeed = 19\<rparr>, ''W2XYZ'')]) \<and>
   (\<exists>s'. send exEnv (exSingle\<lparr>responseField := ''QRS''\<rparr>) = Inr s' \<and>
      player (stations s' 0) =
        Some \<lparr>p_wpm = 20, p_enableFarnsworth = True, p_farnsworthSpeed = 14\<rparr> \<and>
      map (\<lambda>tn. (t_sender tn, t_player tn, t_text tn)) (scheduled s') =
        [(You, \<lparr>p_wpm = 20, p_enableFarnsworth = False, p_farnsworthSpeed = 0\<rparr>, ''QRS''),
         (Stn 0, \<lparr>p_wpm = 20, p_enableFarnsworth = True, p_farnsworthSpeed = 14\<rparr>, ''K1ABC'')])"
proof -
  have m: "\<exists>s'. send exEnv (exContest\<lparr>responseField := ''QRS''\<rparr>) = Inr s' \<and>
      player (stations s' 0) =
        Some \<lparr>p_wpm = 20, p_enableFarnsworth = True, p_farnsworthSpeed = 14\<rparr> \<and>
      player (stations s' 1) =
        Some \<lparr>p_wpm = 25, p_enableFarnsworth = True, p_farnsworthSpeed = 19\<rparr> \<and>
      map (\<lambda>tn. (t_sender tn, t_player tn, t_text tn)) (scheduled s') =
        [(You, \<lparr>p_wpm = 20, p_enableFarnsworth = False, p_farnsworthSpeed = 0\<rparr>, ''QRS''),
         (Stn 0, \<lparr>p_wpm = 20, p_enableFarnsworth = True, p_farnsworthSpeed = 14\<rparr>, ''K1ABC''),
         (Stn 1, \<lparr>p_wpm = 25, p_enableFarnsworth = True, p_farnsworthSpeed = 19\<rparr>, ''W2XYZ'')]"
    using qrs_send_replaces_player [of exEnv "exContest\<lparr>responseField := ''QRS''\<rparr>"
        "exWithPlayer (exStation ''N0CALL'' 20)" "createMorsePlayer (exStation ''N0CALL'' 20)"
        "[0, 1]" 0]
    by (simp add: ex_defs qrsLower_def farnsworthLowerBy_def)
       (elim exE conjE, intro exI conjI; simp)
  have sg: "\<exists>s'. send exEnv (exSingle\<lparr>responseField := ''QRS''\<rparr>) = Inr s' \<and>
      player (stations s' 0) =
        Some \<lparr>p_wpm = 20, p_enableFarnsworth = True, p_farnsworthSpeed = 14\<rparr> \<and>
      map (\<lambda>tn. (t_sender tn, t_player tn, t_text tn)) (scheduled s') =
        [(You, \<lparr>p_wpm = 20, p_enableFarnsworth = False, p_farnsworthSpeed = 0\<rparr>, ''QRS''),
         (Stn 0, \<lparr>p_wpm = 20, p_enableFarnsworth = True, p_farnsworthSpeed = 14\<rparr>, ''K1ABC'')]"
    using qrs_send_replaces_player [of exEnv "exSingle\<lparr>responseField := ''QRS''\<rparr>"
        "exWithPlayer (exStation ''N0CALL'' 20)" "createMorsePlayer (exStation ''N0CALL'' 20)"
        "[]" 0]
    by (simp add: ex_defs qrsLower_def farnsworthLowerBy_def)
       (elim exE conjE, intro exI conjI; simp)
  from m sg show ?thesis by blast
qed

subsection \<open>Stop\<close>

text \<open>
  C8. What \<^verbatim>\<open>stop\<close> does: every scheduled tone and the background static are silenced and
  the call button is enabled; the registry, the active index and the confirmation flag are
  kept; when the mode is \<^verbatim>\<open>single\<close> the current station, the attempt counter and the start
  time are cleared, otherwise they are kept. The lock watermark is not touched: a lock that
  was busy before \<^verbatim>\<open>stop\<close> is busy after it, where the specification has it freed.
\<close>

theorem stop_effect:
  "scheduled (stop s) = [] \<and> \<not> staticPlaying (stop s) \<and> \<not> cqButtonDisabled (stop s) \<and>
   audioLock (stop s) = audioLock s \<and> getAudioLock env (stop s) = getAudioLock env s \<and>
   currentStations (stop s) = currentStations s \<and>
   activeStationIndex (stop s) = activeStationIndex s \<and> readyForTU (stop s) = readyForTU s \<and>
   (currentMode s = ''single'' \<longrightarrow>
      currentStation (stop s) = None \<and> currentStationAttempts (stop s) = 0 \<and>
      currentStationStartTime (stop s) = None) \<and>
   (currentMode s \<noteq> ''single'' \<longrightarrow>
      currentStation (stop s) = currentStation s \<and>
      currentStationAttempts (stop s) = currentStationAttempts s \<and>
      currentStationStartTime (stop s) = currentStationStartTime s)"
  by (simp add: stop_def Let_def stopAllAudio_def updateActiveStations_def getAudioLock_def)

theorem stop_effect_witness:
  "currentMode (exSingle\<lparr>audioLock := 200\<rparr>) = ''single'' \<and>
   currentStation (stop (exSingle\<lparr>audioLock := 200\<rparr>)) = None \<and>
   currentMode (exContest\<lparr>audioLock := 200\<rparr>) \<noteq> ''single'' \<and>
   currentStations (stop (exContest\<lparr>audioLock := 200\<rparr>)) = [0, 1] \<and>
   getAudioLock exEnv (stop (exContest\<lparr>audioLock := 200\<rparr>)) \<and>
   getAudioLock exEnv (stop (exSingle\<lparr>audioLock := 200\<rparr>)) \<and>
   cq exEnv (stop (exSingle\<lparr>audioLock := 200\<rparr>)) = Inr (stop (exSingle\<lparr>audioLock := 200\<rparr>))"
proof -
  have a: "getAudioLock exEnv (exSingle\<lparr>audioLock := 200\<rparr>)"
    "getAudioLock exEnv (exContest\<lparr>audioLock := 200\<rparr>)"
    "currentMode (exSingle\<lparr>audioLock := 200\<rparr>) = ''single''"
    "currentMode (exContest\<lparr>audioLock := 200\<rparr>) \<noteq> ''single''"
    "currentStations (exContest\<lparr>audioLock := 200\<rparr>) = [0, 1]"
    by (simp_all add: ex_defs)
  have b: "getAudioLock exEnv (stop (exSingle\<lparr>audioLock := 200\<rparr>))"
    using stop_effect [of "exSingle\<lparr>audioLock := 200\<rparr>" exEnv] a by simp
  have c: "getAudioLock exEnv (stop (exContest\<lparr>audioLock := 200\<rparr>))"
    using stop_effect [of "exContest\<lparr>audioLock := 200\<rparr>" exEnv] a by simp
  have d: "cq exEnv (stop (exSingle\<lparr>audioLock := 200\<rparr>)) = Inr (stop (exSingle\<lparr>audioLock := 200\<rparr>))"
    using b by (simp add: cq_def)
  show ?thesis
    using stop_effect [of "exSingle\<lparr>audioLock := 200\<rparr>" exEnv]
      stop_effect [of "exContest\<lparr>audioLock := 200\<rparr>" exEnv] a b c d
    by simp
qed

subsection \<open>A call with an invalid configuration\<close>

text \<open>
  C3 (amended). When \<^verbatim>\<open>getInputs()\<close> answers null, a call that is not declined beforehand
  (busy lock, or a station already active in a mode without a TU step) returns after
  starting the background static, if it was not playing, and storing the null inputs.
  Nothing else changes: no tone is scheduled, no station is added, the lock and every other
  session variable are as before.
\<close>

theorem cq_invalid_configuration:
  "getInputs env = None \<Longrightarrow>
   cq env s =
     Inr (if getAudioLock env s \<or> (\<not> showTuStep (getModeConfig env s) \<and> currentStation s \<noteq> None)
          then s else s\<lparr>inputs := None, staticPlaying := True\<rparr>)"
  by (simp add: cq_def Let_def isBackgroundStaticPlaying_def createBackgroundStatic_def)

theorem cq_invalid_configuration_witness:
  "getInputs (exEnv\<lparr>getInputs := None\<rparr>) = None \<and>
   cq (exEnv\<lparr>getInputs := None\<rparr>) exContest = Inr (exContest\<lparr>inputs := None\<rparr>) \<and>
   cq (exEnv\<lparr>getInputs := None\<rparr>) exSingle = Inr exSingle"
  using cq_invalid_configuration [of "exEnv\<lparr>getInputs := None\<rparr>" exContest]
    cq_invalid_configuration [of "exEnv\<lparr>getInputs := None\<rparr>" exSingle]
  by (simp add: ex_defs)

text \<open>
  C3 as stated fails: on a fresh page in single mode the aborted call has started the
  background static.
\<close>

theorem cq_invalid_configuration_counterexample:
  "getInputs (exEnv\<lparr>getInputs := None\<rparr>) = None \<and>
   \<not> staticPlaying (exStart ''single'') \<and>
   staticPlaying (after (cq (exEnv\<lparr>getInputs := None\<rparr>) (exStart ''single''))) \<and>
   cq (exEnv\<lparr>getInputs := None\<rparr>) (exStart ''single'') \<noteq> Inr (exStart ''single'')"
proof -
  have a: "cq (exEnv\<lparr>getInputs := None\<rparr>) (exStart ''single'') =
             Inr ((exStart ''single'')\<lparr>inputs := None, staticPlaying := True\<rparr>)"
    by (simp add: cq_def ex_defs isBackgroundStaticPlaying_def createBackgroundStatic_def)
  have b: "\<not> staticPlaying (exStart ''single'')"
    by (simp add: ex_defs)
  have "staticPlaying ((exStart ''single'')\<lparr>inputs := None, staticPlaying := True\<rparr>)"
    by simp
  with a b have "cq (exEnv\<lparr>getInputs := None\<rparr>) (exStart ''single'') \<noteq> Inr (exStart ''single'')"
    by (metis sum.inject(2))
  with a b show ?thesis by simp
qed

subsection \<open>Cut numbers\<close>

text \<open>Every digit with a non-empty entry in the map is replaced, everything else is kept.\<close>

lemma replaceDigits_append:
  "replaceDigits m (a @ b) = replaceDigits m a @ replaceDigits m b"
  by (simp add: replaceDigits_def)

lemma replaceDigits_Cons:
  "replaceDigits m (c # cs) =
     (if isDigit c \<and> m c \<noteq> None \<and> m c \<noteq> Some [] then the (m c) else [c]) @ replaceDigits m cs"
  by (auto simp: replaceDigits_def cutDigit_def split: option.splits)

text \<open>The multi-station perfect-match path keys both exchanges transliterated.\<close>

lemma send_multi_perfect_exchange:
  assumes free: "\<not> getAudioLock env s"
    and tok: "tx = toUpperCase env (trim env (responseField s))" "tx \<noteq> []"
      "tx \<noteq> ''AGN''" "tx \<noteq> ''QRS''" "CHR ''?'' \<notin> set tx"
    and mode: "showTuStep (getModeConfig env s)" "currentStations s \<noteq> []"
    and you: "yourStation s = Some ys" "player ys = Some yp"
    and hit: "indexOf (map (\<lambda>r. compareStrings env (callsign (stations s r)) tx)
                         (currentStations s)) Perfect = Some i"
    and stn: "player (stations s (currentStations s ! i)) = Some p"
    and inp: "inputs s = Some inp" "enableCutNumbers inp"
  shows "\<exists>s'. send env s = Inr s' \<and>
           map (\<lambda>tn. (t_sender tn, t_text tn)) (scheduled s') =
             map (\<lambda>tn. (t_sender tn, t_text tn)) (scheduled s) @
               [(You, tx),
                (You, replaceDigits (cutNumbers inp)
                        ('' '' @ yourExchange (getModeConfig env s) ys
                                   (Some (stations s (currentStations s ! i))) None)),
                (Stn (currentStations s ! i),
                   replaceDigits (cutNumbers inp)
                     (theirExchange (getModeConfig env s) ys
                        (Some (stations s (currentStations s ! i))) None))] \<and>
           readyForTU s' \<and> activeStationIndex s' = Some i"
proof -
  have q: "tx \<noteq> ''?''" "tx \<noteq> ''AGN?''"
    using tok(5) by auto
  have rm: "remove1 CHR ''?'' tx = tx"
    using tok(5) by (simp add: remove1_idem)
  show ?thesis
    using free tok q rm mode you hit stn inp
    by (simp add: send_def send_multi_def send_multi_match_def yourPlay_def stationPlay_def
          playSentence_def updateAudioLock_def bumpAttempts_def Let_def)
qed

text \<open>
  C6. With cut numbers enabled and \<^verbatim>\<open>0\<close> mapped to \<^verbatim>\<open>T\<close>, a perfect match in the contest
  session keys the exchanges transliterated (\<^verbatim>\<open>5NN TT1\<close>, \<^verbatim>\<open>5NN 12T\<close>), but the same
  match in single mode keys them with their digits (\<^verbatim>\<open>5NN 001\<close>, \<^verbatim>\<open>5NN 120\<close>): the
  single-mode path never reads the cut-number settings.
\<close>

theorem cut_numbers_skipped_in_single_mode:
  "map_option enableCutNumbers (inputs exSingle) = Some True \<and>
   map_option (\<lambda>i. cutNumbers i CHR ''0'') (inputs exSingle) = Some (Some ''T'') \<and>
   (\<exists>s'. send exEnv (exSingle\<lparr>responseField := ''K1ABC''\<rparr>) = Inr s' \<and>
      map (\<lambda>tn. (t_sender tn, t_text tn)) (scheduled s') =
        [(You, ''K1ABC''), (You, '' 5NN 001''), (Stn 0, ''5NN 120''),
         (You, ''TU''), (Stn 0, ''EE''), (Stn 1, ''K1ABC'')]) \<and>
   (\<exists>s'. send exEnv (exContest\<lparr>responseField := ''K1ABC''\<rparr>) = Inr s' \<and>
      map (\<lambda>tn. (t_sender tn, t_text tn)) (scheduled s') =
        [(You, ''K1ABC''), (You, '' 5NN TT1''), (Stn 0, ''5NN 12T'')])"
  by (simp add: ex_defs run_defs)

subsection \<open>A send that matches no station\<close>

lemma indexOf_None: "indexOf xs x = None \<longleftrightarrow> x \<notin> set xs"
  by (induction xs) auto

lemma indexOf_Some: "indexOf xs x = Some i \<Longrightarrow> i < length xs \<and> xs ! i = x"
proof (induction xs arbitrary: i)
  case Nil
  then show ?case by simp
next
  case (Cons a xs)
  then show ?case by (cases "a = x") auto
qed

text \<open>
  C4 (amended). A send that is not declined, carries no control token and matches no
  targeted callsign keys the trainee's text and advances the lock to its end. In a mode
  with a TU step that is all besides the attempt counter going up by one: no station reply
  is scheduled, and the registry, the stations and every other session variable are
  unchanged. In single mode the current station in addition re-sends its callsign, as it
  does on a partial match, and the lock advances to the end of that reply.
\<close>

theorem send_no_match:
  assumes free: "\<not> getAudioLock env s"
    and tok: "txt = toUpperCase env (trim env (responseField s))" "txt \<noteq> []"
      "txt \<noteq> ''?''" "txt \<noteq> ''AGN''" "txt \<noteq> ''AGN?''" "txt \<noteq> ''QRS''"
    and you: "yourStation s = Some ys" "player ys = Some yp"
  shows
    "(showTuStep (getModeConfig env s) \<and> currentStations s \<noteq> [] \<and>
      (\<forall>r \<in> set (currentStations s).
         compareStrings env (callsign (stations s r)) (remove1 CHR ''?'' txt) = NoMatch) \<longrightarrow>
      send env s =
        Inr (s\<lparr>currentStationAttempts := currentStationAttempts s + 1,
               audioLock := playEnd env yp txt None,
               scheduled := scheduled s @
                 [\<lparr>t_sender = You, t_player = yp, t_text = txt, t_start = None\<rparr>]\<rparr>)) \<and>
     (\<not> showTuStep (getModeConfig env s) \<and> currentStation s = Some r \<and>
      player (stations s r) = Some p \<and>
      compareStrings env (callsign (stations s r)) (remove1 CHR ''?'' txt) = NoMatch \<longrightarrow>
      send env s =
        Inr (s\<lparr>currentStationAttempts := currentStationAttempts s + 1,
               audioLock := playEnd env p (callsign (stations s r))
                              (Some (playEnd env yp txt None + random env + 0.25)),
               scheduled := scheduled s @
                 [\<lparr>t_sender = You, t_player = yp, t_text = txt, t_start = None\<rparr>,
                  \<lparr>t_sender = Stn r, t_player = p, t_text = callsign (stations s r),
                   t_start = Some (playEnd env yp txt None + random env + 0.25)\<rparr>]\<rparr>))"
proof (intro conjI impI)
  assume h: "showTuStep (getModeConfig env s) \<and> currentStations s \<noteq> [] \<and>
      (\<forall>r \<in> set (currentStations s).
         compareStrings env (callsign (stations s r)) (remove1 CHR ''?'' txt) = NoMatch)"
  define results where "results = map (\<lambda>r. compareStrings env (callsign (stations s r))
                                (remove1 CHR ''?'' txt)) (currentStations s)"
  have "set results \<subseteq> {NoMatch}"
    using h by (auto simp: results_def)
  then have none: "indexOf results Perfect = None" "Partial \<notin> set results"
    by (auto simp: indexOf_None)
  show "send env s =
        Inr (s\<lparr>currentStationAttempts := currentStationAttempts s + 1,
               audioLock := playEnd env yp txt None,
               scheduled := scheduled s @
                 [\<lparr>t_sender = You, t_player = yp, t_text = txt, t_start = None\<rparr>]\<rparr>)"
    using free tok you h none
    by (simp add: send_def send_multi_def send_multi_match_def yourPlay_def playSentence_def
          updateAudioLock_def bumpAttempts_def Let_def results_def)
next
  assume h: "\<not> showTuStep (getModeConfig env s) \<and> currentStation s = Some r \<and>
      player (stations s r) = Some p \<and>
      compareStrings env (callsign (stations s r)) (remove1 CHR ''?'' txt) = NoMatch"
  show "send env s =
        Inr (s\<lparr>currentStationAttempts := currentStationAttempts s + 1,
               audioLock := playEnd env p (callsign (stations s r))
                              (Some (playEnd env yp txt None + random env + 0.25)),
               scheduled := scheduled s @
                 [\<lparr>t_sender = You, t_player = yp, t_text = txt, t_start = None\<rparr>,
                  \<lparr>t_sender = Stn r, t_player = p, t_text = callsign (stations s r),
                   t_start = Some (playEnd env yp txt None + random env + 0.25)\<rparr>]\<rparr>)"
    using free tok you h
    by (simp add: send_def send_single_def yourPlay_def stationPlay_def playSentence_def
          updateAudioLock_def bumpAttempts_def Let_def)
qed

theorem send_no_match_witness:
  "send exEnv (exContest\<lparr>responseField := ''N5XX''\<rparr>) =
     Inr (exContest\<lparr>responseField := ''N5XX'', currentStationAttempts := 1, audioLock := 1,
            scheduled := [\<lparr>t_sender = You,
                           t_player = \<lparr>p_wpm = 20, p_enableFarnsworth = False, p_farnsworthSpeed = 0\<rparr>,
                           t_text = ''N5XX'', t_start = None\<rparr>]\<rparr>) \<and>
   (\<exists>s'. send exEnv (exSingle\<lparr>responseField := ''N5XX''\<rparr>) = Inr s' \<and>
      map (\<lambda>tn. (t_sender tn, t_text tn)) (scheduled s') = [(You, ''N5XX''), (Stn 0, ''K1ABC'')])"
proof -
  have a: "send exEnv (exContest\<lparr>responseField := ''N5XX''\<rparr>) =
     Inr (exContest\<lparr>responseField := ''N5XX'', currentStationAttempts := 1, audioLock := 1,
            scheduled := [\<lparr>t_sender = You,
                           t_player = \<lparr>p_wpm = 20, p_enableFarnsworth = False, p_farnsworthSpeed = 0\<rparr>,
                           t_text = ''N5XX'', t_start = None\<rparr>]\<rparr>)"
    using send_no_match [of exEnv "exContest\<lparr>responseField := ''N5XX''\<rparr>" "''N5XX''"
        "exWithPlayer (exStation ''N0CALL'' 20)" "createMorsePlayer (exStation ''N0CALL'' 20)"
        0 "createMorsePlayer (exStation ''K1ABC'' 20)"]
    by (simp add: ex_defs)
  have b: "\<exists>s'. send exEnv (exSingle\<lparr>responseField := ''N5XX''\<rparr>) = Inr s' \<and>
      map (\<lambda>tn. (t_sender tn, t_text tn)) (scheduled s') = [(You, ''N5XX''), (Stn 0, ''K1ABC'')]"
    using send_no_match [of exEnv "exSingle\<lparr>responseField := ''N5XX''\<rparr>" "''N5XX''"
        "exWithPlayer (exStation ''N0CALL'' 20)" "createMorsePlayer (exStation ''N0CALL'' 20)"
        0 "createMorsePlayer (exStation ''K1ABC'' 20)"]
    by (simp add: ex_defs)
  from a b show ?thesis by blast
qed

text \<open>
  C4 as stated fails in single mode: the matcher answers none for the one active station,
  and the station's callsign is scheduled as a reply.
\<close>

theorem send_no_match_counterexample:
  "compareStrings exEnv (callsign (stations exSingle 0)) ''W2XYZ'' = NoMatch \<and>
   currentStation exSingle = Some 0 \<and>
   (\<exists>s'. send exEnv (exSingle\<lparr>responseField := ''W2XYZ''\<rparr>) = Inr s' \<and>
      map (\<lambda>tn. (t_sender tn, t_text tn)) (scheduled s') = [(You, ''W2XYZ''), (Stn 0, ''K1ABC'')] \<and>
      currentStationAttempts s' = currentStationAttempts exSingle + 1 \<and>
      audioLock s' \<noteq> audioLock exSingle)"
  by (simp add: ex_defs run_defs)

subsection \<open>The session invariant\<close>

lemma sessionInv_alt:
  "sessionInv s \<longleftrightarrow>
     (readyForTU s \<longrightarrow> (\<exists>i. activeStationIndex s = Some i \<and> i < length (currentStations s))) \<and>
     (\<forall>r \<in> set (currentStations s). r < nextRef s \<and> player (stations s r) \<noteq> None) \<and>
     (currentStations s \<noteq> [] \<longrightarrow> (\<exists>ys p. yourStation s = Some ys \<and> player ys = Some p))"
  by (auto simp: sessionInv_def validIndex_def split: option.splits)

text \<open>The part of the session the invariant reads.\<close>

lemma sessionInv_cong:
  assumes "sessionInv s"
    and "readyForTU s' = readyForTU s" "activeStationIndex s' = activeStationIndex s"
    and "currentStations s' = currentStations s" "nextRef s \<le> nextRef s'"
    and "yourStation s' = yourStation s"
    and "\<And>r. r \<in> set (currentStations s) \<Longrightarrow> player (stations s r) \<noteq> None \<Longrightarrow>
              player (stations s' r) \<noteq> None"
  shows "sessionInv s'"
  using assms by (auto simp: sessionInv_alt)

lemma respond_keeps:
  "readyForTU (respondWithAllStations env rs t s) = readyForTU s \<and>
   activeStationIndex (respondWithAllStations env rs t s) = activeStationIndex s \<and>
   currentStations (respondWithAllStations env rs t s) = currentStations s \<and>
   nextRef (respondWithAllStations env rs t s) = nextRef s \<and>
   yourStation (respondWithAllStations env rs t s) = yourStation s \<and>
   currentStationAttempts (respondWithAllStations env rs t s) = currentStationAttempts s \<and>
   resultsTable (respondWithAllStations env rs t s) = resultsTable s \<and>
   sameButPlayer (stations (respondWithAllStations env rs t s) r) (stations s r) \<and>
   (player (stations s r) \<noteq> None \<longrightarrow>
      player (stations (respondWithAllStations env rs t s) r) \<noteq> None) \<and>
   (r \<in> set rs \<longrightarrow> player (stations (respondWithAllStations env rs t s) r) \<noteq> None)"
proof -
  obtain st lk sch where
    eq: "respondWithAllStations env rs t s = s\<lparr>stations := st, audioLock := lk, scheduled := sch\<rparr>"
    and pl: "\<And>r. sameButPlayer (st r) (stations s r) \<and>
                (player (stations s r) \<noteq> None \<longrightarrow> player (st r) \<noteq> None) \<and>
                (r \<in> set rs \<longrightarrow> player (st r) = Some (createMorsePlayer (stations s r))) \<and>
                (r \<notin> set rs \<longrightarrow> player (st r) = player (stations s r))"
    using respond_shape [of env rs t s] by blast
  show ?thesis using pl [of r] by (auto simp: eq)
qed

lemma sessionInv_respond: "sessionInv s \<Longrightarrow> sessionInv (respondWithAllStations env rs t s)"
  by (rule sessionInv_cong [where s = s]) (simp_all add: respond_keeps)

lemma fold_qrs_keeps:
  "\<exists>st. fold (\<lambda>r. updStation r qrsLower) rs s = s\<lparr>stations := st\<rparr> \<and>
        (\<forall>r. player (st r) = player (stations s r))"
proof (induction rs arbitrary: s)
  case Nil
  show ?case by (rule exI [where x = "stations s"]) simp
next
  case (Cons a rs)
  obtain st where st: "fold (\<lambda>r. updStation r qrsLower) rs (updStation a qrsLower s) =
      (updStation a qrsLower s)\<lparr>stations := st\<rparr>"
    "\<And>r. player (st r) = player (stations (updStation a qrsLower s) r)"
    using Cons.IH [of "updStation a qrsLower s"] by blast
  have "\<forall>r. player (st r) = player (stations s r)"
    using st(2) by (simp add: updStation_def qrsLower_fields)
  moreover have "fold (\<lambda>r. updStation r qrsLower) (a # rs) s = s\<lparr>stations := st\<rparr>"
    using st(1) by (simp add: updStation_def)
  ultimately show ?case by blast
qed

lemma sessionInv_fold_qrs:
  "sessionInv s \<Longrightarrow> sessionInv (fold (\<lambda>r. updStation r qrsLower) rs s)"
proof -
  assume inv: "sessionInv s"
  obtain st where st: "fold (\<lambda>r. updStation r qrsLower) rs s = s\<lparr>stations := st\<rparr>"
    "\<And>r. player (st r) = player (stations s r)"
    using fold_qrs_keeps [of rs s] by blast
  show ?thesis
    by (rule sessionInv_cong [OF inv]) (simp_all add: st)
qed

lemma sessionInv_frame [simp]:
  "sessionInv (s\<lparr>scheduled := a\<rparr>) = sessionInv s"
  "sessionInv (s\<lparr>audioLock := b\<rparr>) = sessionInv s"
  "sessionInv (s\<lparr>currentStationAttempts := c\<rparr>) = sessionInv s"
  "sessionInv (s\<lparr>lastRespondingStations := d\<rparr>) = sessionInv s"
  "sessionInv (s\<lparr>totalContacts := e\<rparr>) = sessionInv s"
  "sessionInv (s\<lparr>resultsTable := f\<rparr>) = sessionInv s"
  "sessionInv (s\<lparr>responseField := g\<rparr>) = sessionInv s"
  "sessionInv (s\<lparr>infoField := h\<rparr>) = sessionInv s"
  "sessionInv (s\<lparr>infoField2 := i\<rparr>) = sessionInv s"
  "sessionInv (s\<lparr>cqButtonDisabled := j\<rparr>) = sessionInv s"
  "sessionInv (s\<lparr>activeStationsShown := k\<rparr>) = sessionInv s"
  "sessionInv (s\<lparr>currentStationStartTime := l\<rparr>) = sessionInv s"
  "sessionInv (s\<lparr>staticPlaying := m\<rparr>) = sessionInv s"
  "sessionInv (s\<lparr>inputs := n\<rparr>) = sessionInv s"
  "sessionInv (s\<lparr>currentStation := p\<rparr>) = sessionInv s"
  "sessionInv (s\<lparr>currentMode := q\<rparr>) = sessionInv s"
  by (simp_all add: sessionInv_alt)

lemma sessionInv_yourPlay:
  "yourPlay env txt start s = Some (t, s1) \<Longrightarrow> sessionInv s1 = sessionInv s"
  by (auto simp: yourPlay_def playSentence_def split: option.splits)

lemma sessionInv_stationPlay:
  "stationPlay env r txt t0 s = Some (t, s1) \<Longrightarrow> sessionInv s1 = sessionInv s"
  by (auto simp: stationPlay_def playSentence_def split: option.splits)

lemma sessionInv_send_multi_match:
  assumes "sessionInv s"
  shows "sessionInv (after (send_multi_match env mc txt t s))"
proof (cases "indexOf (map (\<lambda>r. compareStrings env (callsign (stations s r))
                                (remove1 CHR ''?'' txt)) (currentStations s)) Perfect")
  case None
  then show ?thesis
    using assms
    by (simp add: send_multi_match_def Let_def bumpAttempts_def sessionInv_respond)
next
  case (Some i)
  then have i: "i < length (currentStations s)"
    using indexOf_Some by fastforce
  have ready: "sessionInv s' \<Longrightarrow> currentStations s' = currentStations s \<Longrightarrow>
      sessionInv (s'\<lparr>readyForTU := True, activeStationIndex := Some i\<rparr>)" for s'
    using i by (simp add: sessionInv_alt)
  show ?thesis
    using assms Some
    by (auto simp: send_multi_match_def Let_def bumpAttempts_def updateAudioLock_def
          orRaise_def yourPlay_def stationPlay_def playSentence_def
          intro!: ready split: option.splits if_splits)
qed

lemma sessionInv_send_multi:
  assumes "sessionInv s"
  shows "sessionInv (after (send_multi env mc txt s))"
proof (cases "yourPlay env txt None s")
  case None
  then show ?thesis using assms by (simp add: send_multi_def)
next
  case (Some a)
  obtain t s1 where a: "a = (t, s1)" by (cases a)
  have s1: "sessionInv (updateAudioLock t s1)"
    using Some a assms sessionInv_yourPlay [of env "txt" None s t s1]
    by (simp add: updateAudioLock_def)
  show ?thesis
    using Some a s1 assms
    by (auto simp: send_multi_def Let_def bumpAttempts_def orRaise_def respond_keeps
          sessionInv_respond sessionInv_fold_qrs sessionInv_send_multi_match
          split: option.splits)
qed

lemma sessionInv_nextSingleStation:
  "sessionInv s \<Longrightarrow> sessionInv (nextSingleStation env t s)"
  by (auto simp: sessionInv_alt nextSingleStation_def Let_def playSentence_def
        updateAudioLock_def updStation_def updateActiveStations_def)

lemma sessionInv_send_single_perfect:
  assumes "sessionInv s"
  shows "sessionInv (after (send_single_perfect env mc r t s))"
  using assms
  by (auto simp: send_single_perfect_def Let_def orRaise_def updateAudioLock_def
        addTableRow_def sessionInv_yourPlay sessionInv_stationPlay sessionInv_nextSingleStation
        split: option.splits prod.splits)

lemma sessionInv_send_single:
  assumes "sessionInv s"
  shows "sessionInv (after (send_single env mc txt s))"
proof (cases "currentStation s")
  case None
  then show ?thesis using assms by (simp add: send_single_def)
next
  case (Some r)
  show ?thesis
  proof (cases "yourPlay env txt None s")
    case None
    then show ?thesis using assms Some by (simp add: send_single_def)
  next
    case (Some a)
    obtain t s1 where a: "a = (t, s1)" by (cases a)
    have s1: "sessionInv (updateAudioLock t s1)"
      using Some a assms sessionInv_yourPlay [of env "txt" None s t s1]
      by (simp add: updateAudioLock_def)
    have qrs: "sessionInv s' \<Longrightarrow>
       sessionInv (updStation r (\<lambda>x. x\<lparr>player := Some (createMorsePlayer x)\<rparr>)
                    (updStation r qrsLower s'))" for s'
      by (auto simp: sessionInv_alt updStation_def qrsLower_fields)
    show ?thesis
      using Some a s1 \<open>currentStation s = Some r\<close>
      by (auto simp: send_single_def Let_def bumpAttempts_def orRaise_def
            updateAudioLock_def sessionInv_yourPlay sessionInv_stationPlay sessionInv_send_single_perfect qrs
            split: option.splits prod.splits)
  qed
qed

lemma fold_pushStation_shape:
  "\<exists>st. fold pushStation xs s =
          s\<lparr>stations := st,
            currentStations := currentStations s @ [nextRef s ..< nextRef s + length xs],
            nextRef := nextRef s + length xs\<rparr> \<and>
        (\<forall>r < nextRef s. st r = stations s r)"
proof (induction xs arbitrary: s)
  case Nil
  show ?case by (rule exI [where x = "stations s"]) simp
next
  case (Cons x xs)
  obtain st where st: "fold pushStation xs (pushStation x s) =
          (pushStation x s)\<lparr>stations := st,
            currentStations := currentStations (pushStation x s) @
               [nextRef (pushStation x s) ..< nextRef (pushStation x s) + length xs],
            nextRef := nextRef (pushStation x s) + length xs\<rparr>"
    "\<forall>r < nextRef (pushStation x s). st r = stations (pushStation x s) r"
    using Cons.IH [of "pushStation x s"] by blast
  have "[nextRef s ..< nextRef s + length (x # xs)] =
          nextRef s # [Suc (nextRef s) ..< Suc (nextRef s) + length xs]"
    by (simp add: upt_rec)
  then have "fold pushStation (x # xs) s =
          s\<lparr>stations := st,
            currentStations := currentStations s @ [nextRef s ..< nextRef s + length (x # xs)],
            nextRef := nextRef s + length (x # xs)\<rparr>"
    using st(1) by (simp add: pushStation_def)
  moreover have "\<forall>r < nextRef s. st r = stations s r"
    using st(2) by (simp add: pushStation_def)
  ultimately show ?case by blast
qed

lemma sessionInv_respond_all:
  assumes "\<forall>r \<in> set (currentStations s). r < nextRef s"
    and "yourStation s = Some ys" "player ys = Some yp"
    and "readyForTU s \<longrightarrow> (\<exists>i. activeStationIndex s = Some i \<and> i < length (currentStations s))"
  shows "sessionInv (respondWithAllStations env (currentStations s) t s)"
  using assms respond_keeps [of env "currentStations s" t s]
  by (auto simp: sessionInv_alt)

lemma sessionInv_add_respond:
  assumes "\<forall>r \<in> set (currentStations s). r < nextRef s"
    and "yourStation s = Some ys" "player ys = Some yp"
    and "readyForTU s \<longrightarrow> (\<exists>i. activeStationIndex s = Some i \<and> i < length (currentStations s))"
  shows "sessionInv (respondWithAllStations env (currentStations (addStations env s)) t
                       (addStations env s))"
proof -
  obtain st where st: "addStations env s =
          s\<lparr>stations := st,
            currentStations := currentStations s @
               [nextRef s ..< nextRef s + length (newStations env)],
            nextRef := nextRef s + length (newStations env)\<rparr>"
    using fold_pushStation_shape [of "newStations env" s] by (auto simp: addStations_def)
  show ?thesis
    by (rule sessionInv_respond_all [where ys = ys and yp = yp])
       (use assms in \<open>auto simp: st\<close>)
qed

lemma sessionInv_cq:
  assumes "sessionInv s"
  shows "sessionInv (after (cq env s))"
proof -
  have inv: "\<forall>r \<in> set (currentStations s). r < nextRef s"
    "readyForTU s \<longrightarrow> (\<exists>i. activeStationIndex s = Some i \<and> i < length (currentStations s))"
    using assms by (auto simp: sessionInv_alt)
  define ys where "ys = (getYourStation env)\<lparr>player := Some (createMorsePlayer (getYourStation env))\<rparr>"
  have you: "sessionInv (s'\<lparr>yourStation := Some ys\<rparr>)"
    if "sessionInv s'" for s'
    using that by (auto simp: sessionInv_alt ys_def)
  have multi: "sessionInv (respondWithAllStations env (currentStations (addStations env s')) t
                       (addStations env s'))"
    if "currentStations s' = currentStations s" "nextRef s' = nextRef s"
      "yourStation s' = Some ys" "readyForTU s' = readyForTU s"
      "activeStationIndex s' = activeStationIndex s" for s' t
    by (rule sessionInv_add_respond [where ys = ys])
       (use that inv in \<open>auto simp: ys_def\<close>)
  show ?thesis
    using assms you
    by (auto simp: cq_def Let_def orRaise_def yourPlay_def playSentence_def
          isBackgroundStaticPlaying_def createBackgroundStatic_def updateAudioLock_def
          ys_def [symmetric] sessionInv_nextSingleStation
          intro!: multi split: option.splits if_splits)
qed

lemma compareExtraInfo_Some:
  "\<exists>e. compareExtraInfo env k u (Some stn) = Some e"
  by (simp add: compareExtraInfo_def Let_def split: option.splits)

lemma orRaise_if:
  "orRaise (if c then Some a else Some b) s k = k (if c then a else b)"
  by simp

lemma sameButPlayer_refl [simp]: "sameButPlayer a a"
  by (simp add: sameButPlayer_def)

text \<open>The tail of a confirmed contact.\<close>

lemma tu_finish_props:
  assumes i: "i < length (currentStations s4)"
  shows "\<exists>added.
      resultsTable (tu_finish env extraInfo t i s4) =
        resultsTable s4 @
          [\<lparr>c_number = totalContacts s4,
            c_callsign = callsign (stations s4 (currentStations s4 ! i)),
            c_wpmString = wpmString env (stations s4 (currentStations s4 ! i)),
            c_attempts = currentStationAttempts s4,
            c_elapsed = elapsed env s4, c_extraInfo = extraInfo\<rparr>] \<and>
      currentStations (tu_finish env extraInfo t i s4) =
        take i (currentStations s4) @ drop (Suc i) (currentStations s4) @ added \<and>
      (\<forall>r \<in> set added. nextRef s4 \<le> r \<and> r < nextRef (tu_finish env extraInfo t i s4)) \<and>
      nextRef s4 \<le> nextRef (tu_finish env extraInfo t i s4) \<and>
      \<not> readyForTU (tu_finish env extraInfo t i s4) \<and>
      currentStationAttempts (tu_finish env extraInfo t i s4) = 0 \<and>
      activeStationIndex (tu_finish env extraInfo t i s4) = None \<and>
      yourStation (tu_finish env extraInfo t i s4) = yourStation s4 \<and>
      (\<forall>r \<in> set (currentStations (tu_finish env extraInfo t i s4)).
          player (stations (tu_finish env extraInfo t i s4) r) \<noteq> None) \<and>
      (\<forall>r < nextRef s4. sameButPlayer (stations (tu_finish env extraInfo t i s4) r) (stations s4 r))"
proof -
  define s8 where "s8 =
    s4\<lparr>resultsTable := resultsTable s4 @
          [\<lparr>c_number = totalContacts s4,
            c_callsign = callsign (stations s4 (currentStations s4 ! i)),
            c_wpmString = wpmString env (stations s4 (currentStations s4 ! i)),
            c_attempts = currentStationAttempts s4,
            c_elapsed = elapsed env s4, c_extraInfo = extraInfo\<rparr>],
       currentStations := take i (currentStations s4) @ drop (Suc i) (currentStations s4),
       activeStationIndex := None, currentStationAttempts := 0, readyForTU := False,
       activeStationsShown := length (take i (currentStations s4) @ drop (Suc i) (currentStations s4)),
       responseField := [], infoField := [], infoField2 := []\<rparr>"
  define s9 where "s9 = (if random env < 0.4 \<or> enableContinuous env then addStations env s8 else s8)"
  define s10 where "s10 = respondWithAllStations env (currentStations s9) t s9"
  have fin: "tu_finish env extraInfo t i s4 =
      s10\<lparr>lastRespondingStations := Some (currentStations s10),
          currentStationStartTime := Some (now env)\<rparr>"
    unfolding s10_def s9_def s8_def
    by (simp add: tu_finish_def Let_def addTableRow_def updateActiveStations_def
          split del: if_split cong: if_cong)
  obtain st where st: "addStations env s8 =
          s8\<lparr>stations := st,
            currentStations := currentStations s8 @
               [nextRef s8 ..< nextRef s8 + length (newStations env)],
            nextRef := nextRef s8 + length (newStations env)\<rparr>"
      "\<forall>r < nextRef s8. st r = stations s8 r"
    using fold_pushStation_shape [of "newStations env" s8] by (auto simp: addStations_def)
  define added where "added =
     (if random env < 0.4 \<or> enableContinuous env
      then [nextRef s8 ..< nextRef s8 + length (newStations env)] else [])"
  have s9: "currentStations s9 = currentStations s8 @ added"
    "resultsTable s9 = resultsTable s8" "readyForTU s9 = readyForTU s8"
    "currentStationAttempts s9 = currentStationAttempts s8"
    "activeStationIndex s9 = activeStationIndex s8" "yourStation s9 = yourStation s8"
    "nextRef s8 \<le> nextRef s9" "\<forall>r \<in> set added. nextRef s8 \<le> r \<and> r < nextRef s9"
    "\<forall>r < nextRef s8. stations s9 r = stations s8 r"
    using st by (auto simp: s9_def added_def)
  have s8: "currentStations s8 = take i (currentStations s4) @ drop (Suc i) (currentStations s4)"
    "nextRef s8 = nextRef s4" "stations s8 = stations s4" "yourStation s8 = yourStation s4"
    "\<not> readyForTU s8" "currentStationAttempts s8 = 0" "activeStationIndex s8 = None"
    "resultsTable s8 = resultsTable s4 @
          [\<lparr>c_number = totalContacts s4,
            c_callsign = callsign (stations s4 (currentStations s4 ! i)),
            c_wpmString = wpmString env (stations s4 (currentStations s4 ! i)),
            c_attempts = currentStationAttempts s4,
            c_elapsed = elapsed env s4, c_extraInfo = extraInfo\<rparr>]"
    by (simp_all add: s8_def)
  have keep: "readyForTU s10 = readyForTU s9" "activeStationIndex s10 = activeStationIndex s9"
    "currentStations s10 = currentStations s9" "nextRef s10 = nextRef s9"
    "yourStation s10 = yourStation s9" "currentStationAttempts s10 = currentStationAttempts s9"
    "resultsTable s10 = resultsTable s9"
    using respond_keeps [of env "currentStations s9" t s9] by (simp_all add: s10_def)
  have pl: "\<forall>r \<in> set (currentStations s10). player (stations s10 r) \<noteq> None"
    using respond_keeps [of env "currentStations s9" t s9] keep(3)
    by (simp add: s10_def)
  have same: "\<forall>r < nextRef s4. sameButPlayer (stations s10 r) (stations s4 r)"
  proof (intro allI impI)
    fix r assume "r < nextRef s4"
    then have "stations s9 r = stations s4 r"
      using s9(9) s8 by simp
    moreover have "sameButPlayer (stations s10 r) (stations s9 r)"
      using respond_keeps [of env "currentStations s9" t s9 r] by (simp add: s10_def)
    ultimately show "sameButPlayer (stations s10 r) (stations s4 r)" by simp
  qed
  show ?thesis
    apply (rule exI [where x = added])
    using s8 s9 keep pl same by (simp add: fin)
qed

lemma tu_runs:
  assumes free: "\<not> getAudioLock env s" and mode: "showTuStep (getModeConfig env s)"
    and ready: "readyForTU s"
    and idx: "activeStationIndex s = Some i" "i < length (currentStations s)"
    and you: "yourStation s = Some ys" "player ys = Some yp"
    and stn: "player (stations s (currentStations s ! i)) = Some p"
  shows "\<exists>extraInfo t s4.
      tu env s = Inr (tu_finish env extraInfo t i s4) \<and>
      totalContacts s4 = totalContacts s + 1 \<and> currentStations s4 = currentStations s \<and>
      stations s4 = stations s \<and> resultsTable s4 = resultsTable s \<and>
      currentStationAttempts s4 = currentStationAttempts s \<and> nextRef s4 = nextRef s \<and>
      yourStation s4 = yourStation s \<and>
      currentStationStartTime s4 = currentStationStartTime s \<and>
      currentStation s4 = currentStation s"
proof -
  define mc where "mc = getModeConfig env s"
  define r where "r = currentStations s ! i"
  define stnObj where "stnObj = stations s r"
  have vi: "validIndex s = Some i"
    using idx by (simp add: validIndex_def)
  obtain e1 where e1: "compareExtraInfo env (extraInfoFieldKey mc) (trim env (infoField s))
                         (Some stnObj) = Some e1"
    using compareExtraInfo_Some by blast
  obtain e2 where e2: "compareExtraInfo env (extraInfoFieldKey2 mc) (trim env (infoField2 s))
                         (Some stnObj) = Some e2"
    using compareExtraInfo_Some by blast
  show ?thesis
  proof (cases "theirSignoff mc")
    case None
    show ?thesis
      using free mode ready idx you stn vi e1 e2 None
      apply (simp add: tu_def mc_def [symmetric] Let_def r_def [symmetric] stnObj_def [symmetric]
          yourPlay_def playSentence_def updateAudioLock_def orRaise_if
          split del: if_split cong: if_cong)
      apply (intro exI conjI)
              apply (rule refl)
             apply simp_all
      done
  next
    case (Some f)
    show ?thesis
      using free mode ready idx you stn vi e1 e2 Some
      apply (simp add: tu_def mc_def [symmetric] Let_def r_def [symmetric] stnObj_def [symmetric]
          yourPlay_def stationPlay_def playSentence_def updateAudioLock_def orRaise_if
          split del: if_split cong: if_cong)
      apply (intro exI conjI)
              apply (rule refl)
             apply simp_all
      done
  qed
qed

lemma sessionInv_tu:
  assumes inv: "sessionInv s"
  shows "sessionInv (after (tu env s))"
proof (cases "\<not> getAudioLock env s \<and> showTuStep (getModeConfig env s) \<and> readyForTU s")
  case False
  then show ?thesis using inv by (auto simp: tu_def)
next
  case True
  then obtain i where i: "activeStationIndex s = Some i" "i < length (currentStations s)"
    using inv by (auto simp: sessionInv_alt)
  then have mem: "currentStations s ! i \<in> set (currentStations s)" by simp
  then obtain p where p: "player (stations s (currentStations s ! i)) = Some p"
    using inv by (auto simp: sessionInv_alt)
  obtain ys yp where you: "yourStation s = Some ys" "player ys = Some yp"
    using inv i by (auto simp: sessionInv_alt)
  obtain extraInfo t s4 where run: "tu env s = Inr (tu_finish env extraInfo t i s4)"
    and s4: "currentStations s4 = currentStations s" "nextRef s4 = nextRef s"
      "yourStation s4 = yourStation s"
    using tu_runs [of env s i ys yp p] True i you p by blast
  obtain added where fin:
    "currentStations (tu_finish env extraInfo t i s4) =
        take i (currentStations s4) @ drop (Suc i) (currentStations s4) @ added"
    "\<forall>r \<in> set added. nextRef s4 \<le> r \<and> r < nextRef (tu_finish env extraInfo t i s4)"
    "nextRef s4 \<le> nextRef (tu_finish env extraInfo t i s4)"
    "\<not> readyForTU (tu_finish env extraInfo t i s4)"
    "yourStation (tu_finish env extraInfo t i s4) = yourStation s4"
    "\<forall>r \<in> set (currentStations (tu_finish env extraInfo t i s4)).
          player (stations (tu_finish env extraInfo t i s4) r) \<noteq> None"
    using tu_finish_props [of i s4 env extraInfo t] i s4 by auto
  have old: "\<forall>r \<in> set (currentStations s). r < nextRef s"
    using inv by (auto simp: sessionInv_alt)
  have "\<forall>r \<in> set (currentStations (tu_finish env extraInfo t i s4)).
          r < nextRef (tu_finish env extraInfo t i s4)"
    using fin(1,2,3) s4 old
    by (auto dest!: in_set_takeD in_set_dropD)
  then show ?thesis
    using run fin(4,5,6) s4 you by (auto simp: sessionInv_alt)
qed

lemma sessionInv_stop: "sessionInv s \<Longrightarrow> sessionInv (stop s)"
  by (simp add: stop_def Let_def stopAllAudio_def updateActiveStations_def)

lemma sessionInv_resetGameState: "sessionInv (resetGameState s)"
  by (simp add: resetGameState_def Let_def stopAllAudio_def updateActiveStations_def
        clearTable_def updateAudioLock_def sessionInv_alt)

lemma sessionInv_reset: "sessionInv (reset s)"
  by (simp add: reset_def Let_def stopAllAudio_def updateActiveStations_def
        clearTable_def updateAudioLock_def sessionInv_alt)

lemma sessionInv_changeMode: "sessionInv (changeMode env s)"
  using sessionInv_resetGameState [of "s\<lparr>currentMode := selectedMode env\<rparr>"]
  by (simp add: changeMode_def Let_def applyModeSettings_def)

lemma sessionInv_send: "sessionInv s \<Longrightarrow> sessionInv (after (send env s))"
  by (simp add: send_def Let_def sessionInv_cq sessionInv_send_multi sessionInv_send_single)

lemma sessionInv_step: "sessionInv s \<Longrightarrow> sessionInv (step env a s)"
  by (cases a)
     (simp_all add: step_def sessionInv_cq sessionInv_send sessionInv_tu sessionInv_stop
        sessionInv_reset sessionInv_changeMode)

lemma sessionInv_initial: "sessionInv (initial env m store)"
  using sessionInv_resetGameState
  by (simp add: initial_def applyModeSettings_def)

lemma reachable_sessionInv: "reachable s \<Longrightarrow> sessionInv s"
  by (induction rule: reachable.induct) (simp_all add: sessionInv_initial sessionInv_step)

subsection \<open>The confirm action\<close>

text \<open>
  C2. In a mode with a TU step and a session satisfying the invariant (every reachable
  session does, \<open>reachable_sessionInv\<close>): without \<^verbatim>\<open>readyForTU\<close> the confirm action changes
  nothing; with it, and the lock free, the action returns normally, appends exactly one
  row to the results table (for the station at \<^verbatim>\<open>activeStationIndex\<close>, with the attempt
  count so far), removes exactly that station from the registry and keeps every other
  entry in order (stations admitted afterwards are fresh objects appended at the end),
  and leaves \<^verbatim>\<open>readyForTU\<close> false and the attempt counter at 0.
\<close>

theorem tu_confirms_contact:
  assumes inv: "sessionInv s" and mode: "showTuStep (getModeConfig env s)"
  shows
    "(\<not> readyForTU s \<longrightarrow> tu env s = Inr s) \<and>
     (readyForTU s \<and> \<not> getAudioLock env s \<longrightarrow>
        (\<exists>s' i row added.
           tu env s = Inr s' \<and>
           activeStationIndex s = Some i \<and> i < length (currentStations s) \<and>
           resultsTable s' = resultsTable s @ [row] \<and>
           c_number row = totalContacts s + 1 \<and>
           c_callsign row = callsign (stations s (currentStations s ! i)) \<and>
           c_attempts row = currentStationAttempts s \<and>
           currentStations s' =
             take i (currentStations s) @ drop (Suc i) (currentStations s) @ added \<and>
           (\<forall>r \<in> set added. nextRef s \<le> r) \<and>
           (\<forall>r \<in> set (currentStations s). r < nextRef s \<and>
                sameButPlayer (stations s' r) (stations s r)) \<and>
           \<not> readyForTU s' \<and> currentStationAttempts s' = 0 \<and>
           activeStationIndex s' = None))"
proof (intro conjI impI)
  assume "\<not> readyForTU s"
  then show "tu env s = Inr s" by (simp add: tu_def)
next
  assume h: "readyForTU s \<and> \<not> getAudioLock env s"
  then obtain i where i: "activeStationIndex s = Some i" "i < length (currentStations s)"
    using inv by (auto simp: sessionInv_alt)
  then have mem: "currentStations s ! i \<in> set (currentStations s)" by simp
  then obtain p where p: "player (stations s (currentStations s ! i)) = Some p"
    using inv by (auto simp: sessionInv_alt)
  obtain ys yp where you: "yourStation s = Some ys" "player ys = Some yp"
    using inv i by (auto simp: sessionInv_alt)
  obtain extraInfo t s4 where run: "tu env s = Inr (tu_finish env extraInfo t i s4)"
    and s4: "totalContacts s4 = totalContacts s + 1" "currentStations s4 = currentStations s"
      "stations s4 = stations s" "resultsTable s4 = resultsTable s"
      "currentStationAttempts s4 = currentStationAttempts s" "nextRef s4 = nextRef s"
    using tu_runs [of env s i ys yp p] mode h i you p by blast
  define s' where "s' = tu_finish env extraInfo t i s4"
  obtain added where fin:
    "resultsTable s' =
        resultsTable s4 @
          [\<lparr>c_number = totalContacts s4,
            c_callsign = callsign (stations s4 (currentStations s4 ! i)),
            c_wpmString = wpmString env (stations s4 (currentStations s4 ! i)),
            c_attempts = currentStationAttempts s4,
            c_elapsed = elapsed env s4, c_extraInfo = extraInfo\<rparr>]"
    "currentStations s' =
        take i (currentStations s4) @ drop (Suc i) (currentStations s4) @ added"
    "\<forall>r \<in> set added. nextRef s4 \<le> r \<and> r < nextRef s'"
    "\<not> readyForTU s'" "currentStationAttempts s' = 0" "activeStationIndex s' = None"
    "\<forall>r < nextRef s4. sameButPlayer (stations s' r) (stations s4 r)"
    using tu_finish_props [of i s4 env extraInfo t] i s4 unfolding s'_def by auto
  have old: "\<forall>r \<in> set (currentStations s). r < nextRef s"
    using inv by (auto simp: sessionInv_alt)
  define row where "row =
     \<lparr>c_number = totalContacts s4,
      c_callsign = callsign (stations s4 (currentStations s4 ! i)),
      c_wpmString = wpmString env (stations s4 (currentStations s4 ! i)),
      c_attempts = currentStationAttempts s4,
      c_elapsed = elapsed env s4, c_extraInfo = extraInfo\<rparr>"
  have "tu env s = Inr s' \<and>
           activeStationIndex s = Some i \<and> i < length (currentStations s) \<and>
           resultsTable s' = resultsTable s @ [row] \<and>
           c_number row = totalContacts s + 1 \<and>
           c_callsign row = callsign (stations s (currentStations s ! i)) \<and>
           c_attempts row = currentStationAttempts s \<and>
           currentStations s' =
             take i (currentStations s) @ drop (Suc i) (currentStations s) @ added \<and>
           (\<forall>r \<in> set added. nextRef s \<le> r) \<and>
           (\<forall>r \<in> set (currentStations s). r < nextRef s \<and>
                sameButPlayer (stations s' r) (stations s r)) \<and>
           \<not> readyForTU s' \<and> currentStationAttempts s' = 0 \<and>
           activeStationIndex s' = None"
    using run i fin s4 old by (simp add: s'_def [symmetric] row_def)
  then show "\<exists>s' i row added.
           tu env s = Inr s' \<and>
           activeStationIndex s = Some i \<and> i < length (currentStations s) \<and>
           resultsTable s' = resultsTable s @ [row] \<and>
           c_number row = totalContacts s + 1 \<and>
           c_callsign row = callsign (stations s (currentStations s ! i)) \<and>
           c_attempts row = currentStationAttempts s \<and>
           currentStations s' =
             take i (currentStations s) @ drop (Suc i) (currentStations s) @ added \<and>
           (\<forall>r \<in> set added. nextRef s \<le> r) \<and>
           (\<forall>r \<in> set (currentStations s). r < nextRef s \<and>
                sameButPlayer (stations s' r) (stations s r)) \<and>
           \<not> readyForTU s' \<and> currentStationAttempts s' = 0 \<and>
           activeStationIndex s' = None"
    by blast
qed

theorem tu_confirms_contact_witness:
  "sessionInv exConfirm \<and> showTuStep (getModeConfig exEnv exConfirm) \<and>
   readyForTU exConfirm \<and> \<not> getAudioLock exEnv exConfirm \<and>
   (\<exists>s' row added.
      tu exEnv exConfirm = Inr s' \<and> resultsTable s' = [row] \<and>
      c_callsign row = ''K1ABC'' \<and> c_attempts row = 1 \<and>
      currentStations s' = 1 # added \<and> \<not> readyForTU s' \<and>
      currentStationAttempts s' = 0)"
proof -
  have inv: "sessionInv exConfirm"
    by (simp add: exConfirm_def ex_defs sessionInv_def validIndex_def)
  have mode: "showTuStep (getModeConfig exEnv exConfirm)"
    by (simp add: exConfirm_def ex_defs)
  have pre: "readyForTU exConfirm" "\<not> getAudioLock exEnv exConfirm"
    "activeStationIndex exConfirm = Some 0" "currentStations exConfirm = [0, 1]"
    "resultsTable exConfirm = []" "currentStationAttempts exConfirm = 1"
    "callsign (stations exConfirm 0) = ''K1ABC''"
    by (simp_all add: exConfirm_def ex_defs)
  from tu_confirms_contact [OF inv mode] pre
  obtain s' i row added where r:
    "tu exEnv exConfirm = Inr s'" "activeStationIndex exConfirm = Some i"
    "resultsTable s' = resultsTable exConfirm @ [row]"
    "c_callsign row = callsign (stations exConfirm (currentStations exConfirm ! i))"
    "c_attempts row = currentStationAttempts exConfirm"
    "currentStations s' =
       take i (currentStations exConfirm) @ drop (Suc i) (currentStations exConfirm) @ added"
    "\<not> readyForTU s'" "currentStationAttempts s' = 0"
    by blast
  from r(2) pre(3) have "i = 0" by simp
  with r pre have "tu exEnv exConfirm = Inr s' \<and> resultsTable s' = [row] \<and>
      c_callsign row = ''K1ABC'' \<and> c_attempts row = 1 \<and>
      currentStations s' = 1 # added \<and> \<not> readyForTU s' \<and>
      currentStationAttempts s' = 0"
    by simp
  with inv mode pre(1,2) show ?thesis by blast
qed

subsection \<open>A pending confirmation addresses a station on the air\<close>




lemma pending_frame [simp]:
  "pending (updateAudioLock t s) = pending s"
  "pending (bumpAttempts s) = pending s"
  "pending (updStation r f s) = pending s"
  "pending (addTableRow c s) = pending s"
  "pending (updateActiveStations n s) = pending s"
  "pending (s\<lparr>totalContacts := e\<rparr>) = pending s"
  "pending (s\<lparr>currentStation := p\<rparr>) = pending s"
  "pending (s\<lparr>currentStationAttempts := k\<rparr>) = pending s"
  "pending (s\<lparr>currentStationStartTime := l\<rparr>) = pending s"
  "pending (s\<lparr>stations := st, nextRef := m\<rparr>) = pending s"
  by (simp_all add: pending_def updateAudioLock_def bumpAttempts_def updStation_def
        addTableRow_def updateActiveStations_def)














subsection \<open>The targets of a send in a reachable session\<close>

lemma targetsInv_alt:
  "targetsInv s \<longleftrightarrow>
     distinct (currentStations s) \<and>
     (currentStations s \<noteq> [] \<longrightarrow> lastRespondingStations s \<noteq> None) \<and>
     (\<forall>lrs. lastRespondingStations s = Some lrs \<longrightarrow> distinct lrs) \<and>
     (currentStation s \<noteq> None \<longrightarrow> yourStation s \<noteq> None) \<and>
     (\<forall>ys. yourStation s = Some ys \<longrightarrow> player ys \<noteq> None)"
  by (auto simp: targetsInv_def split: option.splits)

lemma targetsInv_cong:
  assumes "targetsInv s"
    and "currentStations s' = currentStations s"
    and "lastRespondingStations s' = lastRespondingStations s"
    and "yourStation s' = yourStation s" "currentStation s' = currentStation s"
  shows "targetsInv s'"
  using assms by (simp add: targetsInv_alt)

lemma respond_keeps_targets:
  "lastRespondingStations (respondWithAllStations env rs t s) = lastRespondingStations s \<and>
   currentStation (respondWithAllStations env rs t s) = currentStation s"
proof -
  obtain st lk sch where
    "respondWithAllStations env rs t s = s\<lparr>stations := st, audioLock := lk, scheduled := sch\<rparr>"
    using respond_shape [of env rs t s] by blast
  then show ?thesis by simp
qed

lemma targetsInv_respond: "targetsInv s \<Longrightarrow> targetsInv (respondWithAllStations env rs t s)"
  by (rule targetsInv_cong [where s = s]) (simp_all add: respond_keeps respond_keeps_targets)

lemma targetsInv_fold_qrs:
  "targetsInv s \<Longrightarrow> targetsInv (fold (\<lambda>r. updStation r qrsLower) rs s)"
proof -
  assume inv: "targetsInv s"
  obtain st where st: "fold (\<lambda>r. updStation r qrsLower) rs s = s\<lparr>stations := st\<rparr>"
    using fold_qrs_keeps [of rs s] by blast
  show ?thesis
    by (rule targetsInv_cong [OF inv]) (simp_all add: st)
qed

lemma targetsInv_frame [simp]:
  "targetsInv (s\<lparr>scheduled := a\<rparr>) = targetsInv s"
  "targetsInv (s\<lparr>audioLock := b\<rparr>) = targetsInv s"
  "targetsInv (s\<lparr>currentStationAttempts := c\<rparr>) = targetsInv s"
  "targetsInv (s\<lparr>stations := d\<rparr>) = targetsInv s"
  "targetsInv (s\<lparr>totalContacts := e\<rparr>) = targetsInv s"
  "targetsInv (s\<lparr>resultsTable := f\<rparr>) = targetsInv s"
  "targetsInv (s\<lparr>responseField := g\<rparr>) = targetsInv s"
  "targetsInv (s\<lparr>infoField := h\<rparr>) = targetsInv s"
  "targetsInv (s\<lparr>infoField2 := i\<rparr>) = targetsInv s"
  "targetsInv (s\<lparr>cqButtonDisabled := j\<rparr>) = targetsInv s"
  "targetsInv (s\<lparr>activeStationsShown := k\<rparr>) = targetsInv s"
  "targetsInv (s\<lparr>currentStationStartTime := l\<rparr>) = targetsInv s"
  "targetsInv (s\<lparr>staticPlaying := m\<rparr>) = targetsInv s"
  "targetsInv (s\<lparr>inputs := n\<rparr>) = targetsInv s"
  "targetsInv (s\<lparr>readyForTU := p\<rparr>) = targetsInv s"
  "targetsInv (s\<lparr>activeStationIndex := q\<rparr>) = targetsInv s"
  "targetsInv (s\<lparr>currentMode := u\<rparr>) = targetsInv s"
  "targetsInv (s\<lparr>nextRef := v\<rparr>) = targetsInv s"
  by (simp_all add: targetsInv_alt)

lemma targetsInv_yourPlay:
  "yourPlay env tx start s = Some (t, s1) \<Longrightarrow> targetsInv s1 = targetsInv s"
  by (auto simp: yourPlay_def playSentence_def split: option.splits)

lemma targetsInv_stationPlay:
  "stationPlay env r tx t0 s = Some (t, s1) \<Longrightarrow> targetsInv s1 = targetsInv s"
  by (auto simp: stationPlay_def playSentence_def split: option.splits)

lemma distinct_partial_matches:
  "distinct xs \<Longrightarrow> distinct (map fst (filter P (zip xs ys)))"
proof (induction xs arbitrary: ys)
  case Nil
  then show ?case by simp
next
  case (Cons x xs)
  show ?case
  proof (cases ys)
    case Nil
    then show ?thesis by simp
  next
    case (Cons y ys')
    have "x \<notin> fst ` set (zip xs ys')"
      using Cons.prems by (auto dest: set_zip_leftD)
    then have "x \<notin> fst ` set (filter P (zip xs ys'))" by auto
    with Cons.IH [of ys'] Cons.prems Cons show ?thesis by simp
  qed
qed

lemma targetsInv_send_multi_match:
  assumes "targetsInv s"
  shows "targetsInv (after (send_multi_match env mc tx t s))"
proof -
  have part: "targetsInv (s'\<lparr>lastRespondingStations :=
                Some (map fst (filter P (zip (currentStations s) ys)))\<rparr>)"
    if "targetsInv s'" "currentStations s' = currentStations s" for s' P ys
    using that by (auto simp: targetsInv_alt distinct_partial_matches)
  show ?thesis
    using assms
    by (auto simp: send_multi_match_def Let_def bumpAttempts_def updateAudioLock_def
          orRaise_def yourPlay_def stationPlay_def playSentence_def respond_keeps
          targetsInv_respond
          intro!: part split: option.splits if_splits)
qed

lemma targetsInv_send_multi:
  assumes "targetsInv s"
  shows "targetsInv (after (send_multi env mc tx s))"
proof (cases "yourPlay env tx None s")
  case None
  then show ?thesis using assms by (simp add: send_multi_def)
next
  case (Some a)
  obtain t s1 where a: "a = (t, s1)" by (cases a)
  have s1: "targetsInv (updateAudioLock t s1)"
    using Some a assms targetsInv_yourPlay [of env tx None s t s1]
    by (simp add: updateAudioLock_def)
  have agn: "targetsInv (s'\<lparr>lastRespondingStations := Some (currentStations s')\<rparr>)"
    if "targetsInv s'" for s'
    using that by (auto simp: targetsInv_alt)
  show ?thesis
    using Some a s1 assms
    by (auto simp: send_multi_def Let_def bumpAttempts_def orRaise_def
          targetsInv_respond targetsInv_fold_qrs targetsInv_send_multi_match
          intro!: agn split: option.splits)
qed

lemma targetsInv_nextSingleStation:
  "targetsInv s \<Longrightarrow> yourStation s \<noteq> None \<Longrightarrow> targetsInv (nextSingleStation env t s)"
  by (auto simp: targetsInv_alt nextSingleStation_def Let_def playSentence_def
        updateAudioLock_def updStation_def updateActiveStations_def)

lemma yourStation_yourPlay:
  "yourPlay env tx start s = Some (t, s1) \<Longrightarrow> yourStation s1 = yourStation s"
  by (auto simp: yourPlay_def playSentence_def split: option.splits)

lemma yourStation_stationPlay:
  "stationPlay env r tx t0 s = Some (t, s1) \<Longrightarrow> yourStation s1 = yourStation s"
  by (auto simp: stationPlay_def playSentence_def split: option.splits)

lemma targetsInv_send_single_perfect:
  assumes "targetsInv s"
  shows "targetsInv (after (send_single_perfect env mc r t s))"
  using assms
  by (auto simp: send_single_perfect_def Let_def orRaise_def updateAudioLock_def
        addTableRow_def targetsInv_yourPlay targetsInv_stationPlay
        yourStation_yourPlay yourStation_stationPlay
        intro!: targetsInv_nextSingleStation
        split: option.splits prod.splits)

lemma targetsInv_send_single:
  assumes "targetsInv s"
  shows "targetsInv (after (send_single env mc tx s))"
proof (cases "currentStation s")
  case None
  then show ?thesis using assms by (simp add: send_single_def)
next
  case (Some r)
  show ?thesis
  proof (cases "yourPlay env tx None s")
    case None
    then show ?thesis using assms Some by (simp add: send_single_def)
  next
    case (Some a)
    obtain t s1 where a: "a = (t, s1)" by (cases a)
    have s1: "targetsInv (updateAudioLock t s1)"
      using Some a assms targetsInv_yourPlay [of env tx None s t s1]
      by (simp add: updateAudioLock_def)
    show ?thesis
      using Some a s1 \<open>currentStation s = Some r\<close>
      by (auto simp: send_single_def Let_def bumpAttempts_def orRaise_def updStation_def
            updateAudioLock_def targetsInv_yourPlay targetsInv_stationPlay
            targetsInv_send_single_perfect
            split: option.splits prod.splits)
  qed
qed

lemma distinct_fresh_append:
  "distinct xs \<Longrightarrow> \<forall>r \<in> set xs. r < n \<Longrightarrow> distinct (xs @ [n ..< n + k])"
  by auto

lemma targetsInv_cq:
  assumes inv: "sessionInv s" and tg: "targetsInv s"
  shows "targetsInv (after (cq env s))"
proof -
  define ys where "ys = (getYourStation env)\<lparr>player := Some (createMorsePlayer (getYourStation env))\<rparr>"
  have old: "\<forall>r \<in> set (currentStations s). r < nextRef s" "distinct (currentStations s)"
    using inv tg by (auto simp: sessionInv_alt targetsInv_alt)
  have you: "targetsInv (s'\<lparr>yourStation := Some ys\<rparr>)" if "targetsInv s'" for s'
    using that by (auto simp: targetsInv_alt ys_def)
  have multi: "targetsInv
       ((respondWithAllStations env (currentStations (addStations env s')) t (addStations env s'))
          \<lparr>lastRespondingStations := Some (currentStations (addStations env s'))\<rparr>)"
    if "currentStations s' = currentStations s" "nextRef s' = nextRef s"
      "yourStation s' = Some ys" for s' t
  proof -
    obtain st where st: "addStations env s' =
          s'\<lparr>stations := st,
            currentStations := currentStations s' @
               [nextRef s' ..< nextRef s' + length (newStations env)],
            nextRef := nextRef s' + length (newStations env)\<rparr>"
      using fold_pushStation_shape [of "newStations env" s'] by (auto simp: addStations_def)
    have "distinct (currentStations s' @ [nextRef s' ..< nextRef s' + length (newStations env)])"
      by (rule distinct_fresh_append) (use old that in auto)
    then have d: "distinct (currentStations (addStations env s'))"
      by (simp add: st)
    show ?thesis
      using d that respond_keeps [of env "currentStations (addStations env s')" t "addStations env s'"]
        respond_keeps_targets [of env "currentStations (addStations env s')" t "addStations env s'"]
      by (simp add: targetsInv_alt st ys_def)
  qed
  show ?thesis
    using tg you
    by (auto simp: cq_def Let_def orRaise_def yourPlay_def playSentence_def
          isBackgroundStaticPlaying_def createBackgroundStatic_def updateAudioLock_def
          ys_def [symmetric] respond_keeps
          intro!: multi targetsInv_nextSingleStation split: option.splits if_splits)
qed

lemma distinct_remove_nth:
  assumes "distinct xs"
  shows "distinct (take i xs @ drop (Suc i) xs)"
proof -
  have "distinct (take i xs @ drop i xs)" using assms by simp
  then have "set (take i xs) \<inter> set (drop i xs) = {}"
    by (simp only: distinct_append)
  moreover have "set (drop (Suc i) xs) \<subseteq> set (drop i xs)"
    by (rule set_drop_subset_set_drop) simp
  ultimately show ?thesis using assms by auto
qed

lemma tu_finish_targets:
  assumes d: "distinct (currentStations s4)"
    and old: "\<forall>r \<in> set (currentStations s4). r < nextRef s4"
  shows "distinct (currentStations (tu_finish env extraInfo t i s4)) \<and>
         lastRespondingStations (tu_finish env extraInfo t i s4) =
           Some (currentStations (tu_finish env extraInfo t i s4)) \<and>
         currentStation (tu_finish env extraInfo t i s4) = currentStation s4 \<and>
         yourStation (tu_finish env extraInfo t i s4) = yourStation s4"
proof -
  define s8 where "s8 =
    s4\<lparr>resultsTable := resultsTable s4 @
          [\<lparr>c_number = totalContacts s4,
            c_callsign = callsign (stations s4 (currentStations s4 ! i)),
            c_wpmString = wpmString env (stations s4 (currentStations s4 ! i)),
            c_attempts = currentStationAttempts s4,
            c_elapsed = elapsed env s4, c_extraInfo = extraInfo\<rparr>],
       currentStations := take i (currentStations s4) @ drop (Suc i) (currentStations s4),
       activeStationIndex := None, currentStationAttempts := 0, readyForTU := False,
       activeStationsShown := length (take i (currentStations s4) @ drop (Suc i) (currentStations s4)),
       responseField := [], infoField := [], infoField2 := []\<rparr>"
  define s9 where "s9 = (if random env < 0.4 \<or> enableContinuous env then addStations env s8 else s8)"
  define s10 where "s10 = respondWithAllStations env (currentStations s9) t s9"
  have fin: "tu_finish env extraInfo t i s4 =
      s10\<lparr>lastRespondingStations := Some (currentStations s10),
          currentStationStartTime := Some (now env)\<rparr>"
    unfolding s10_def s9_def s8_def
    by (simp add: tu_finish_def Let_def addTableRow_def updateActiveStations_def
          split del: if_split cong: if_cong)
  have s8d: "distinct (currentStations s8)"
    using distinct_remove_nth [OF d, of i] by (simp add: s8_def)
  have s8b: "\<forall>r \<in> set (currentStations s8). r < nextRef s8"
    using old by (auto simp: s8_def dest: in_set_takeD in_set_dropD)
  have s8: "currentStation s8 = currentStation s4" "yourStation s8 = yourStation s4"
    by (simp_all add: s8_def)
  obtain st where st: "addStations env s8 =
          s8\<lparr>stations := st,
            currentStations := currentStations s8 @
               [nextRef s8 ..< nextRef s8 + length (newStations env)],
            nextRef := nextRef s8 + length (newStations env)\<rparr>"
    using fold_pushStation_shape [of "newStations env" s8] by (auto simp: addStations_def)
  have "distinct (currentStations s8 @ [nextRef s8 ..< nextRef s8 + length (newStations env)])"
    using s8d s8b by (rule distinct_fresh_append)
  then have s9: "distinct (currentStations s9)" "currentStation s9 = currentStation s4"
    "yourStation s9 = yourStation s4"
    using s8 s8d by (simp_all add: s9_def st)
  show ?thesis
    using s9 respond_keeps [of env "currentStations s9" t s9]
      respond_keeps_targets [of env "currentStations s9" t s9]
    by (simp add: fin s10_def)
qed

lemma targetsInv_tu:
  assumes inv: "sessionInv s" and tg: "targetsInv s"
  shows "targetsInv (after (tu env s))"
proof (cases "\<not> getAudioLock env s \<and> showTuStep (getModeConfig env s) \<and> readyForTU s")
  case False
  then show ?thesis using tg by (auto simp: tu_def)
next
  case True
  then obtain i where i: "activeStationIndex s = Some i" "i < length (currentStations s)"
    using inv by (auto simp: sessionInv_alt)
  then have mem: "currentStations s ! i \<in> set (currentStations s)" by simp
  then obtain p where p: "player (stations s (currentStations s ! i)) = Some p"
    using inv by (auto simp: sessionInv_alt)
  obtain ys yp where you: "yourStation s = Some ys" "player ys = Some yp"
    using inv i by (auto simp: sessionInv_alt)
  obtain extraInfo t s4 where run: "tu env s = Inr (tu_finish env extraInfo t i s4)"
    and s4: "currentStations s4 = currentStations s" "nextRef s4 = nextRef s"
      "yourStation s4 = yourStation s" "currentStation s4 = currentStation s"
    using tu_runs [of env s i ys yp p] True i you p by blast
  have "distinct (currentStations s4)" "\<forall>r \<in> set (currentStations s4). r < nextRef s4"
    using inv tg s4 by (auto simp: sessionInv_alt targetsInv_alt)
  from tu_finish_targets [OF this, of env extraInfo t i] run s4 tg
  show ?thesis by (auto simp: targetsInv_alt)
qed

lemma targetsInv_stop: "targetsInv s \<Longrightarrow> targetsInv (stop s)"
  by (auto simp: stop_def Let_def stopAllAudio_def updateActiveStations_def targetsInv_alt)

lemma targetsInv_resetGameState: "targetsInv s \<Longrightarrow> targetsInv (resetGameState s)"
  by (auto simp: resetGameState_def Let_def stopAllAudio_def updateActiveStations_def
        clearTable_def updateAudioLock_def targetsInv_alt)

lemma targetsInv_reset: "targetsInv s \<Longrightarrow> targetsInv (reset s)"
  by (auto simp: reset_def Let_def stopAllAudio_def updateActiveStations_def
        clearTable_def updateAudioLock_def targetsInv_alt)

lemma targetsInv_changeMode: "targetsInv s \<Longrightarrow> targetsInv (changeMode env s)"
  using targetsInv_resetGameState [of "s\<lparr>currentMode := selectedMode env\<rparr>"]
  by (simp add: changeMode_def Let_def applyModeSettings_def)

lemma targetsInv_send:
  "sessionInv s \<Longrightarrow> targetsInv s \<Longrightarrow> targetsInv (after (send env s))"
  by (simp add: send_def Let_def targetsInv_cq targetsInv_send_multi targetsInv_send_single)

lemma targetsInv_step:
  "sessionInv s \<Longrightarrow> targetsInv s \<Longrightarrow> targetsInv (step env a s)"
  by (cases a)
     (simp_all add: step_def targetsInv_cq targetsInv_send targetsInv_tu targetsInv_stop
        targetsInv_reset targetsInv_changeMode)

lemma targetsInv_initial: "targetsInv (initial env m store)"
  by (simp add: initial_def applyModeSettings_def resetGameState_def Let_def stopAllAudio_def
        updateActiveStations_def clearTable_def updateAudioLock_def targetsInv_alt)

lemma reachable_targetsInv: "reachable s \<Longrightarrow> targetsInv s"
proof (induction rule: reachable.induct)
  case (reach_initial env savedMode store)
  show ?case by (rule targetsInv_initial)
next
  case (reach_step s env a)
  then show ?case by (simp add: targetsInv_step reachable_sessionInv)
qed

text \<open>In a reachable session the targets of a QRS send are as the theorem on QRS takes them.\<close>

lemma reachable_qrs_targets:
  assumes "reachable s"
  shows "(currentStations s \<noteq> [] \<longrightarrow>
            (\<exists>lrs ys yp. lastRespondingStations s = Some lrs \<and> distinct lrs \<and>
               yourStation s = Some ys \<and> player ys = Some yp)) \<and>
         (currentStation s \<noteq> None \<longrightarrow>
            (\<exists>ys yp. yourStation s = Some ys \<and> player ys = Some yp))"
  using reachable_targetsInv [OF assms] reachable_sessionInv [OF assms]
  by (auto simp: targetsInv_alt sessionInv_alt)

end
